theory Spec2Isabelle
  imports Complex_Main
begin

section \<open>Python values, errors and insertion-ordered dictionaries\<close>

text \<open>
  The generator is sequential Python. An exception is a value of \<open>py_error\<close> on the left
  of a sum; a function that can raise returns \<open>py_error + 'a\<close>.
\<close>

datatype py_error = AssertionError | KeyError | ValueError

definition ebind :: "py_error + 'a \<Rightarrow> ('a \<Rightarrow> py_error + 'b) \<Rightarrow> py_error + 'b" where
  "ebind m f = (case m of Inl e \<Rightarrow> Inl e | Inr x \<Rightarrow> f x)"

text \<open>
  The elements of the coupling tuples are strings and integers mixed
  (\<^verbatim>\<open>(space, '...', port_number, es_model_name, '...', 0)\<close>), so a tuple is a list of
  \<open>pyval\<close>.
\<close>

datatype pyval = PStr string | PInt int

text \<open>
  A Python \<^verbatim>\<open>dict\<close> keeps insertion order and has unique keys: an association list.
  \<open>od_set\<close> is \<^verbatim>\<open>d[k] = v\<close>: an existing key keeps its position and takes the new
  value, a new key goes last. \<open>od_get\<close> is \<^verbatim>\<open>d[k]\<close>, which raises \<^verbatim>\<open>KeyError\<close>.
\<close>

type_synonym ('k, 'v) odict = "('k \<times> 'v) list"

fun od_set :: "'k \<Rightarrow> 'v \<Rightarrow> ('k, 'v) odict \<Rightarrow> ('k, 'v) odict" where
  "od_set k v [] = [(k, v)]"
| "od_set k v ((k', v') # d) = (if k' = k then (k, v) # d else (k', v') # od_set k v d)"

fun od_get :: "('k, 'v) odict \<Rightarrow> 'k \<Rightarrow> py_error + 'v" where
  "od_get [] k = Inl KeyError"
| "od_get ((k', v') # d) k = (if k' = k then Inr v' else od_get d k)"

text \<open>\<^verbatim>\<open>{k: v for k, v in pairs}\<close> and \<^verbatim>\<open>d.update(...)\<close>: the pairs are stored in order.\<close>

fun od_update :: "('k, 'v) odict \<Rightarrow> ('k \<times> 'v) list \<Rightarrow> ('k, 'v) odict" where
  "od_update d [] = d"
| "od_update d ((k, v) # kvs) = od_update (od_set k v d) kvs"

definition od_keys :: "('k, 'v) odict \<Rightarrow> 'k list" where
  "od_keys d = map fst d"

definition od_values :: "('k, 'v) odict \<Rightarrow> 'v list" where
  "od_values d = map snd d"

text \<open>
  \<^verbatim>\<open>range(start, stop, step)\<close>: counting up while below \<open>stop\<close> for a positive step,
  counting down while above it for a negative one; a zero step raises \<^verbatim>\<open>ValueError\<close>.
\<close>

function range_up :: "int \<Rightarrow> int \<Rightarrow> int \<Rightarrow> int list" where
  "range_up i stop step = (if 0 < step \<and> i < stop then i # range_up (i + step) stop step else [])"
  by pat_completeness auto
termination
  by (relation "measure (\<lambda>(i, stop, step). nat (stop - i))") auto

declare range_up.simps [simp del]

function range_down :: "int \<Rightarrow> int \<Rightarrow> int \<Rightarrow> int list" where
  "range_down i stop step = (if step < 0 \<and> stop < i then i # range_down (i + step) stop step else [])"
  by pat_completeness auto
termination
  by (relation "measure (\<lambda>(i, stop, step). nat (i - stop))") auto

declare range_down.simps [simp del]

definition py_range :: "int \<Rightarrow> int \<Rightarrow> int \<Rightarrow> py_error + int list" where
  "py_range start stop step =
     (if step = 0 then Inl ValueError
      else if 0 < step then Inr (range_up start stop step)
      else Inr (range_down start stop step))"

text \<open>\<^verbatim>\<open>zip(xs, range(len(xs)))\<close>: every element with its 0-based position.\<close>

definition enumerate_ports :: "'a list \<Rightarrow> ('a \<times> int) list" where
  "enumerate_ports xs = zip xs (range_up 0 (int (length xs)) 1)"

text \<open>\<^verbatim>\<open>str(n)\<close> of an integer: decimal digits, with a minus sign below zero.\<close>

definition digit_char :: "nat \<Rightarrow> char" where
  "digit_char n = ''0123456789'' ! (n mod 10)"

function str_nat :: "nat \<Rightarrow> string" where
  "str_nat n = (if n < 10 then [digit_char n] else str_nat (n div 10) @ [digit_char (n mod 10)])"
  by pat_completeness auto
termination
  by (relation "measure id") auto

declare str_nat.simps [simp del]

definition str :: "int \<Rightarrow> string" where
  "str i = (if i < 0 then CHR ''-'' # str_nat (nat (- i)) else str_nat (nat i))"

text \<open>\<^verbatim>\<open>'_'.join(parts)\<close>.\<close>

fun join_underscore :: "string list \<Rightarrow> string" where
  "join_underscore [] = []"
| "join_underscore [x] = x"
| "join_underscore (x # y # ys) = x @ ''_'' @ join_underscore (y # ys)"

section \<open>chunks\<close>

text \<open>
  \<^verbatim>\<open>
  def chunks(data, SIZE=150):
      it = iter(data)
      for i in range(0, len(data), SIZE):
          yield {k: data[k] for k in islice(it, SIZE)}
  \<close>
  The iterator \<open>it\<close> is the list of keys not yet consumed. \<^verbatim>\<open>islice(it, SIZE)\<close> takes
  the next \<open>SIZE\<close> keys and leaves the iterator advanced; its stop argument must be an
  integer with \<open>0 \<le> SIZE \<le> sys.maxsize\<close>, anything else raises \<^verbatim>\<open>ValueError\<close>.
  \<^verbatim>\<open>range\<close> has no such bound. The generator's yields are collected in a list, in order.
\<close>

text \<open>\<^verbatim>\<open>sys.maxsize\<close> of a 64-bit CPython.\<close>

definition sys_maxsize :: int where
  "sys_maxsize = 2 ^ 63 - 1"

definition islice :: "'k list \<Rightarrow> int \<Rightarrow> py_error + ('k list \<times> 'k list)" where
  "islice it n =
     (if n < 0 \<or> sys_maxsize < n then Inl ValueError
      else Inr (take (nat n) it, drop (nat n) it))"

fun dict_comp :: "('k, 'v) odict \<Rightarrow> 'k list \<Rightarrow> ('k, 'v) odict \<Rightarrow> py_error + ('k, 'v) odict" where
  "dict_comp data [] acc = Inr acc"
| "dict_comp data (k # ks) acc =
     ebind (od_get data k) (\<lambda>v. dict_comp data ks (od_set k v acc))"

fun chunks_loop ::
  "('k, 'v) odict \<Rightarrow> 'k list \<Rightarrow> int list \<Rightarrow> int \<Rightarrow> py_error + ('k, 'v) odict list" where
  "chunks_loop data it [] SIZE = Inr []"
| "chunks_loop data it (i # is) SIZE =
     ebind (islice it SIZE) (\<lambda>(ks, it').
     ebind (dict_comp data ks []) (\<lambda>g.
     ebind (chunks_loop data it' is SIZE) (\<lambda>gs. Inr (g # gs))))"

definition chunks :: "('k, 'v) odict \<Rightarrow> int \<Rightarrow> py_error + ('k, 'v) odict list" where
  "chunks data SIZE =
     ebind (py_range 0 (int (length data)) SIZE) (\<lambda>r. chunks_loop data (od_keys data) r SIZE)"

section \<open>Constants and collaborators\<close>

text \<open>
  The module \<^verbatim>\<open>constants\<close> (imported with \<^verbatim>\<open>from .constants import *\<close>) is not among the
  sources, so the names it provides are parameters of the model: the reaction-set names
  and the three message types.
\<close>

record constants =
  BULK :: string
  MEMBRANE :: string
  OUTER :: string
  INNER :: string
  TRANS :: string
  PRODUCT_MESSAGE_TYPE :: string
  REACTANT_MESSAGE_TYPE :: string
  INFORMATION_MESSAGE_TYPE :: string

text \<open>
  The \<^verbatim>\<open>SBMLParser\<close> is not among the sources either. The generator only reads it, so it
  is a record of what is read: its methods as functions and its attributes as
  dictionaries. \<open>'d\<close> is the data the generator passes on without looking inside.
\<close>

record 'd parser =
  get_enzyme_set :: "string \<Rightarrow> string \<Rightarrow> (string, 'd) odict"
  get_related_reaction_parameters :: "string \<Rightarrow> (string, 'd) odict"
  metabolite_amounts :: "(string, 'd) odict"
  parse_compartments_species :: "(string, (string, 'd) odict) odict"
  interval_times :: "(string, 'd) odict"
  get_compartment_volume :: "string \<Rightarrow> 'd"
  get_enzymes :: "string list \<Rightarrow> 'd"
  get_compartments :: "string list"
  reactions :: "(string, 'd) odict"
  enzymes :: "(string, 'd) odict"

record 'd space_parameters =
  sp_cid :: string
  interval_time :: 'd
  metabolites :: "(string, 'd) odict"
  reaction_parameters :: "(string, 'd) odict"
  volume :: 'd
  sp_enzymes :: 'd

type_synonym routing = "(string \<times> string, int) odict"

text \<open>
  Modelled from the spec: the \<^verbatim>\<open>XMLParametersWriter\<close> is not among the sources. The spec
  (sections 5 and 6) has it an append-only accumulator of router, space, reaction and
  enzyme records, so its state is the list of the records added so far, in order.
\<close>

datatype 'd xml_record =
    Router string "(string, int) odict"
  | Space string "'d space_parameters" routing
  | Reaction string 'd
  | Enzyme string 'd
  | SaveXml

type_synonym 'd parameter_writer = "'d xml_record list"

text \<open>
  The \<^verbatim>\<open>ModelCodeWriter\<close> is not among the sources. What it returns is a parameter: the
  generator unpacks the result of \<^verbatim>\<open>write_enzyme_set\<close> and of \<^verbatim>\<open>write_coupled_model\<close>
  as \<^verbatim>\<open>(model_name, _, output_port_amount)\<close> and uses the result of
  \<^verbatim>\<open>write_space_atomic_model\<close> as a string. \<open>'x\<close> is the component it ignores. The
  arguments of \<^verbatim>\<open>write_coupled_model\<close> are the coupled-model descriptor.
\<close>

type_synonym tuple = "pyval list"

record coupled_model =
  model_name :: string
  sub_models :: "string list"
  ports :: "tuple list"
  eic :: "tuple list"
  eoc :: "tuple list"
  ic :: "tuple list"

record 'x coder =
  write_enzyme_set :: "string \<Rightarrow> string \<Rightarrow> string list list \<Rightarrow> string \<times> 'x \<times> int"
  write_space_atomic_model ::
    "string \<Rightarrow> string list \<Rightarrow> int \<Rightarrow> int \<Rightarrow> string \<Rightarrow> string \<Rightarrow> string \<Rightarrow> string"
  write_coupled_model :: "coupled_model \<Rightarrow> string \<times> 'x \<times> int"

section \<open>ModelStructure\<close>

text \<open>
  The attribute \<^verbatim>\<open>self.id\<close> is the field \<open>id'\<close>. The attribute \<^verbatim>\<open>self.space\<close> is set to
  an empty dictionary and never read, so it has no field.
\<close>

record 'd ModelStructure =
  id' :: string
  routing_table :: routing
  membrane_eic :: "(string, int) odict"
  enzyme_sets :: "(string, (string, 'd) odict) odict"
  space_parameters :: "'d space_parameters"

text \<open>
  \<^verbatim>\<open>
  port_numbers = range(len(membranes))
  self.membrane_eic = {esn: port for esn, port in zip(membranes, port_numbers)}
  \<close>
\<close>

definition build_membrane_eic :: "string list \<Rightarrow> (string, int) odict" where
  "build_membrane_eic membranes = od_update [] (enumerate_ports membranes)"

text \<open>
  \<^verbatim>\<open>
  internal_enzyme_sets = [BULK] + membranes
  port_numbers = range(len(internal_enzyme_sets))
  self.routing_table = {(self.id, esn): port
                        for esn, port in zip(internal_enzyme_sets, port_numbers)}
  \<close>
\<close>

definition internal_enzyme_sets :: "constants \<Rightarrow> string list \<Rightarrow> string list" where
  "internal_enzyme_sets K membranes = BULK K # membranes"

definition internal_routing :: "string \<Rightarrow> string list \<Rightarrow> routing" where
  "internal_routing cid ies =
     od_update [] (map (\<lambda>(esn, port). ((cid, esn), port)) (enumerate_ports ies))"

text \<open>
  \<^verbatim>\<open>
  port_number = len(self.routing_table)
  for external_cid, reaction_sets in external_enzyme_sets.items():
      for reaction_set in reaction_sets:
          self.routing_table[(external_cid, reaction_set)] = port_number
          port_number += 1
  \<close>
  The two loops thread the table and the counter.
\<close>

fun add_reaction_sets :: "string \<Rightarrow> string list \<Rightarrow> routing \<times> int \<Rightarrow> routing \<times> int" where
  "add_reaction_sets external_cid [] st = st"
| "add_reaction_sets external_cid (reaction_set # rss) (rt, port_number) =
     add_reaction_sets external_cid rss
       (od_set (external_cid, reaction_set) port_number rt, port_number + 1)"

fun add_external :: "(string, string list) odict \<Rightarrow> routing \<times> int \<Rightarrow> routing \<times> int" where
  "add_external [] st = st"
| "add_external ((external_cid, reaction_sets) # ext) st =
     add_external ext (add_reaction_sets external_cid reaction_sets st)"

text \<open>
  The external \<open>(supplier, reaction set)\<close> pairs in the order the two loops visit them.
\<close>

definition ext_pairs :: "(string, string list) odict \<Rightarrow> (string \<times> string) list" where
  "ext_pairs ext = concat (map (\<lambda>(c, rss). map (Pair c) rss) ext)"

definition build_routing_table ::
  "constants \<Rightarrow> string \<Rightarrow> string list \<Rightarrow> (string, string list) odict \<Rightarrow> routing" where
  "build_routing_table K cid membranes external_enzyme_sets =
     (let rt = internal_routing cid (internal_enzyme_sets K membranes)
      in fst (add_external external_enzyme_sets (rt, int (length rt))))"

text \<open>
  \<^verbatim>\<open>
  for enzyme_set in internal_enzyme_sets:
      self.enzyme_sets[enzyme_set] = parser.get_enzyme_set(cid, enzyme_set)
  \<close>
\<close>

fun build_enzyme_sets ::
  "'d parser \<Rightarrow> string \<Rightarrow> string list \<Rightarrow> (string, (string, 'd) odict) odict
   \<Rightarrow> (string, (string, 'd) odict) odict" where
  "build_enzyme_sets P cid [] acc = acc"
| "build_enzyme_sets P cid (enzyme_set # ies) acc =
     build_enzyme_sets P cid ies (od_set enzyme_set (get_enzyme_set P cid enzyme_set) acc)"

text \<open>
  The space parameters read three dictionaries of the parser by key
  (\<^verbatim>\<open>parse_compartments_species()[cid]\<close>, \<^verbatim>\<open>metabolite_amounts[specie]\<close>,
  \<^verbatim>\<open>interval_times[cid]\<close>); a missing key raises \<^verbatim>\<open>KeyError\<close> and no structure is built.
\<close>

definition build_space_parameters :: "'d parser \<Rightarrow> string \<Rightarrow> py_error + 'd space_parameters" where
  "build_space_parameters P cid =
     (let rp = get_related_reaction_parameters P cid in
      ebind (od_get (parse_compartments_species P) cid) (\<lambda>species.
      ebind (dict_comp (metabolite_amounts P) (od_keys species) []) (\<lambda>ms.
      ebind (od_get (interval_times P) cid) (\<lambda>it.
      Inr \<lparr> sp_cid = cid, interval_time = it, metabolites = ms, reaction_parameters = rp,
            volume = get_compartment_volume P cid, sp_enzymes = get_enzymes P (od_keys rp) \<rparr>))))"

definition ModelStructure_init ::
  "constants \<Rightarrow> string \<Rightarrow> 'd parser \<Rightarrow> string list \<Rightarrow> (string, string list) odict
   \<Rightarrow> py_error + 'd ModelStructure" where
  "ModelStructure_init K cid P membranes external_enzyme_sets =
     ebind (build_space_parameters P cid) (\<lambda>sp.
     Inr \<lparr> id' = cid,
           routing_table = build_routing_table K cid membranes external_enzyme_sets,
           membrane_eic = build_membrane_eic membranes,
           enzyme_sets = build_enzyme_sets P cid (internal_enzyme_sets K membranes) [],
           space_parameters = sp \<rparr>)"

section \<open>ModelGenerator\<close>

text \<open>
  The generator object: the group size, the two collaborators it only calls, and the
  compartment structures. The parameter writer is the state the methods thread.
\<close>

record ('d, 'x) ModelGenerator =
  groups_size :: int
  the_coder :: "'x coder"
  the_parser :: "'d parser"
  periplasm :: "'d ModelStructure"
  extra_cellular :: "'d ModelStructure"
  cytoplasm :: "'d ModelStructure"
  organelles :: "(string, 'd ModelStructure) odict"

text \<open>
  \<^verbatim>\<open>
  c_external_enzyme_sets = {cid: [MEMBRANE] for cid in self.parser.get_compartments()
                              if cid not in special_compartment_ids}
  c_external_enzyme_sets[periplasm_id] = [INNER, TRANS]
  e_external_enzyme_sets = {periplasm_id: [OUTER, TRANS]}
  \<close>
\<close>

definition organelle_ids :: "'d parser \<Rightarrow> string list \<Rightarrow> string list" where
  "organelle_ids P special_compartment_ids =
     filter (\<lambda>cid. cid \<notin> set special_compartment_ids) (get_compartments P)"

definition c_external_enzyme_sets ::
  "constants \<Rightarrow> 'd parser \<Rightarrow> string list \<Rightarrow> string \<Rightarrow> (string, string list) odict" where
  "c_external_enzyme_sets K P special_compartment_ids periplasm_id =
     od_set periplasm_id [INNER K, TRANS K]
       (od_update [] (map (\<lambda>cid. (cid, [MEMBRANE K])) (organelle_ids P special_compartment_ids)))"

definition e_external_enzyme_sets :: "constants \<Rightarrow> string \<Rightarrow> (string, string list) odict" where
  "e_external_enzyme_sets K periplasm_id = [(periplasm_id, [OUTER K, TRANS K])]"

text \<open>
  \<^verbatim>\<open>
  self.organelles = {comp_id: ModelStructure(comp_id, self.parser, [MEMBRANE])
                     for comp_id in self.parser.get_compartments()
                     if comp_id not in special_compartment_ids}
  \<close>
\<close>

fun build_organelles ::
  "constants \<Rightarrow> 'd parser \<Rightarrow> string list \<Rightarrow> (string, 'd ModelStructure) odict
   \<Rightarrow> py_error + (string, 'd ModelStructure) odict" where
  "build_organelles K P [] acc = Inr acc"
| "build_organelles K P (comp_id # cids) acc =
     ebind (ModelStructure_init K comp_id P [MEMBRANE K] []) (\<lambda>ms.
     build_organelles K P cids (od_set comp_id ms acc))"

definition ModelGenerator_init ::
  "constants \<Rightarrow> 'x coder \<Rightarrow> 'd parser \<Rightarrow> string \<Rightarrow> string \<Rightarrow> string \<Rightarrow> int
   \<Rightarrow> py_error + ('d, 'x) ModelGenerator" where
  "ModelGenerator_init K C P extra_cellular_id periplasm_id cytoplasm_id gsize =
     (let special = [extra_cellular_id, periplasm_id, cytoplasm_id] in
      ebind (ModelStructure_init K periplasm_id P [OUTER K, INNER K, TRANS K] []) (\<lambda>p.
      ebind (ModelStructure_init K extra_cellular_id P []
               (e_external_enzyme_sets K periplasm_id)) (\<lambda>e.
      ebind (ModelStructure_init K cytoplasm_id P []
               (c_external_enzyme_sets K P special periplasm_id)) (\<lambda>c.
      ebind (build_organelles K P (organelle_ids P special) []) (\<lambda>os.
      Inr \<lparr> groups_size = gsize, the_coder = C, the_parser = P, periplasm = p,
            extra_cellular = e, cytoplasm = c, organelles = os \<rparr>)))))"

subsection \<open>generate_enzyme_set\<close>

text \<open>
  \<^verbatim>\<open>
  port = 0
  for group in groups:
      enzyme_ids = list(group.keys())
      groups_enzyme_ids.append(enzyme_ids)
      group_id = '_'.join([cid, esn, str(port)])
      routing_table.update({eid: port for eid in enzyme_ids})
      port += 1
      port_numbers = range(len(enzyme_ids))
      group_routing_table = {eid: port_number
                             for eid, port_number in zip(enzyme_ids, port_numbers)}
      self.parameter_writer.add_router(group_id, group_routing_table)
  \<close>
  The loop state is the port counter, the list of groups, the routing table of the whole
  set and the parameter writer.
\<close>

type_synonym 'd group_state = "int \<times> string list list \<times> (string, int) odict \<times> 'd parameter_writer"

fun group_loop ::
  "string \<Rightarrow> string \<Rightarrow> (string, 'd) odict list \<Rightarrow> 'd group_state \<Rightarrow> 'd group_state" where
  "group_loop cid esn [] st = st"
| "group_loop cid esn (grp # groups) (port, groups_enzyme_ids, rt, w) =
     (let enzyme_ids = od_keys grp;
          group_id = join_underscore [cid, esn, str port];
          group_routing_table = od_update [] (enumerate_ports enzyme_ids)
      in group_loop cid esn groups
           (port + 1,
            groups_enzyme_ids @ [enzyme_ids],
            od_update rt (od_update [] (map (\<lambda>eid. (eid, port)) enzyme_ids)),
            w @ [Router group_id group_routing_table]))"

definition generate_enzyme_set ::
  "('d, 'x) ModelGenerator \<Rightarrow> 'd parameter_writer \<Rightarrow> string \<Rightarrow> string \<Rightarrow> (string, 'd) odict
   \<Rightarrow> py_error + ('d parameter_writer \<times> (string \<times> 'x \<times> int))" where
  "generate_enzyme_set self w cid esn enzyme_set =
     (let enzyme_set_id = join_underscore [cid, esn] in
      ebind (chunks enzyme_set (groups_size self)) (\<lambda>groups.
      case group_loop cid esn groups (0, [], [], w) of
        (port, groups_enzyme_ids, rt, w') \<Rightarrow>
          Inr (w' @ [Router enzyme_set_id rt],
               write_enzyme_set (the_coder self) cid esn groups_enzyme_ids)))"

text \<open>
  \<^verbatim>\<open>
  return {(cid, esn): self.generate_enzyme_set(cid, esn, enzyme_set)
          for esn, enzyme_set in compartment.enzyme_sets.items()}
  \<close>
\<close>

type_synonym 'x es_models = "(string \<times> string, string \<times> 'x \<times> int) odict"

fun enzyme_sets_loop ::
  "('d, 'x) ModelGenerator \<Rightarrow> string \<Rightarrow> (string, (string, 'd) odict) odict
   \<Rightarrow> 'd parameter_writer \<Rightarrow> 'x es_models \<Rightarrow> py_error + ('d parameter_writer \<times> 'x es_models)" where
  "enzyme_sets_loop self cid [] w acc = Inr (w, acc)"
| "enzyme_sets_loop self cid ((esn, enzyme_set) # rest) w acc =
     ebind (generate_enzyme_set self w cid esn enzyme_set) (\<lambda>(w', r).
     enzyme_sets_loop self cid rest w' (od_set (cid, esn) r acc))"

definition generate_enzyme_sets ::
  "('d, 'x) ModelGenerator \<Rightarrow> 'd parameter_writer \<Rightarrow> 'd ModelStructure
   \<Rightarrow> py_error + ('d parameter_writer \<times> 'x es_models)" where
  "generate_enzyme_sets self w compartment =
     enzyme_sets_loop self (id' compartment) (enzyme_sets compartment) w []"

subsection \<open>generate_organelle_compartment\<close>

definition space_struct :: "string \<Rightarrow> string" where
  "space_struct space = ''pmgbp::structs::'' @ space @ ''::'' @ space"

definition enzyme_model :: string where
  "enzyme_model = ''pmgbp::models::enzyme''"

text \<open>
  Both compartment methods make the same call
  \<^verbatim>\<open>self.coder.write_space_atomic_model(cid, [cid], n, 1, PRODUCT_MESSAGE_TYPE,
  REACTANT_MESSAGE_TYPE, INFORMATION_MESSAGE_TYPE)\<close>, with their own output-port count \<open>n\<close>.
\<close>

definition space_atomic_model ::
  "constants \<Rightarrow> ('d, 'x) ModelGenerator \<Rightarrow> string \<Rightarrow> int \<Rightarrow> string" where
  "space_atomic_model K self cid n =
     write_space_atomic_model (the_coder self) cid [cid] n 1
       (PRODUCT_MESSAGE_TYPE K) (REACTANT_MESSAGE_TYPE K) (INFORMATION_MESSAGE_TYPE K)"

text \<open>
  \<^verbatim>\<open>
  ic = []
  for es_address, port_number in compartment.routing_table.items():
      assert es_address[0] == compartment.id
      es_model_name = enzyme_sets[es_address][0]
      ic += [(space, '...'+space+'::'+space, port_number, es_model_name, '...', 0),
             (es_model_name, '...', "0_product", space, '...', "0_product"),
             (es_model_name, '...', "0_information", space, '...', "0_information")]
  \<close>
  The first entry that fails the assertion or has no model ends the loop with that error.
\<close>

definition ic_edges :: "string \<Rightarrow> string \<Rightarrow> int \<Rightarrow> tuple list" where
  "ic_edges space es_model_name port_number =
     [[PStr space, PStr (space_struct space), PInt port_number,
       PStr es_model_name, PStr enzyme_model, PInt 0],
      [PStr es_model_name, PStr enzyme_model, PStr ''0_product'',
       PStr space, PStr (space_struct space), PStr ''0_product''],
      [PStr es_model_name, PStr enzyme_model, PStr ''0_information'',
       PStr space, PStr (space_struct space), PStr ''0_information'']]"

fun organelle_ic ::
  "string \<Rightarrow> string \<Rightarrow> 'x es_models \<Rightarrow> routing \<Rightarrow> tuple list \<Rightarrow> py_error + tuple list" where
  "organelle_ic space cid es [] acc = Inr acc"
| "organelle_ic space cid es ((es_address, port_number) # rt) acc =
     (if fst es_address \<noteq> cid then Inl AssertionError
      else ebind (od_get es es_address) (\<lambda>m.
           organelle_ic space cid es rt (acc @ ic_edges space (fst m) port_number)))"

text \<open>
  What the loop has built when it completes: the three edges of every routing-table entry,
  in the order of the table.
\<close>

definition ic_for :: "string \<Rightarrow> 'x es_models \<Rightarrow> routing \<Rightarrow> tuple list" where
  "ic_for space es rt =
     concat (map (\<lambda>(es_address, port_number).
                    case od_get es es_address of
                      Inr m \<Rightarrow> ic_edges space (fst m) port_number
                    | Inl e \<Rightarrow> []) rt)"

text \<open>
  \<^verbatim>\<open>
  for (es_model_name, _, output_port_amount) in enzyme_sets.values():
      for port_number in range(1, output_port_amount):
          eoc.append((es_model_name, '...', str(port_number) + "_product",
                      str(port_number) + "_product"))
          eoc.append((es_model_name, '...', str(port_number) + "_information",
                      str(port_number) + "_information"))
          if port_number not in out_port_numbers:
              out_port_numbers.append(port_number)
              out_ports.append((str(port_number) + "_product", PRODUCT_MESSAGE_TYPE, 'out'))
              out_ports.append((str(port_number) + "_information",
                                INFORMATION_MESSAGE_TYPE, 'out'))
  \<close>
  The state of the two loops is \<open>(out_port_numbers, out_ports, eoc)\<close>.
\<close>

type_synonym eoc_state = "int list \<times> tuple list \<times> tuple list"

definition eoc_edges :: "string \<Rightarrow> int \<Rightarrow> tuple list" where
  "eoc_edges es_model_name port_number =
     [[PStr es_model_name, PStr enzyme_model,
       PStr (str port_number @ ''_product''), PStr (str port_number @ ''_product'')],
      [PStr es_model_name, PStr enzyme_model,
       PStr (str port_number @ ''_information''), PStr (str port_number @ ''_information'')]]"

definition out_port_decls :: "constants \<Rightarrow> int \<Rightarrow> tuple list" where
  "out_port_decls K port_number =
     [[PStr (str port_number @ ''_product''), PStr (PRODUCT_MESSAGE_TYPE K), PStr ''out''],
      [PStr (str port_number @ ''_information''), PStr (INFORMATION_MESSAGE_TYPE K), PStr ''out'']]"

fun eoc_ports :: "constants \<Rightarrow> string \<Rightarrow> int list \<Rightarrow> eoc_state \<Rightarrow> eoc_state" where
  "eoc_ports K es_model_name [] st = st"
| "eoc_ports K es_model_name (port_number # pns) (out_port_numbers, out_ports, eoc_acc) =
     eoc_ports K es_model_name pns
       (if port_number \<notin> set out_port_numbers
        then (out_port_numbers @ [port_number],
              out_ports @ out_port_decls K port_number,
              eoc_acc @ eoc_edges es_model_name port_number)
        else (out_port_numbers, out_ports, eoc_acc @ eoc_edges es_model_name port_number))"

fun organelle_eoc :: "constants \<Rightarrow> (string \<times> 'x \<times> int) list \<Rightarrow> eoc_state \<Rightarrow> eoc_state" where
  "organelle_eoc K [] st = st"
| "organelle_eoc K ((es_model_name, x, output_port_amount) # vs) st =
     organelle_eoc K vs (eoc_ports K es_model_name (range_up 1 output_port_amount 1) st)"

text \<open>
  \<^verbatim>\<open>
  for es_name, port_number in compartment.membrane_eic.items():
      es_model_name = enzyme_sets[(compartment.id, es_name)][0]
      eic.append((es_model_name, 'pmgbp::models::enzyme', 0, port_number))
      in_ports.append((port_number, REACTANT_MESSAGE_TYPE, 'in'))
  \<close>
  The state is \<open>(in_ports, eic)\<close>.
\<close>

fun organelle_eic ::
  "constants \<Rightarrow> string \<Rightarrow> 'x es_models \<Rightarrow> (string, int) odict \<Rightarrow> tuple list \<times> tuple list
   \<Rightarrow> py_error + (tuple list \<times> tuple list)" where
  "organelle_eic K cid es [] st = Inr st"
| "organelle_eic K cid es ((es_name, port_number) # ms) (in_ports, eic_acc) =
     ebind (od_get es (cid, es_name)) (\<lambda>m.
     organelle_eic K cid es ms
       (in_ports @ [[PInt port_number, PStr (REACTANT_MESSAGE_TYPE K), PStr ''in'']],
        eic_acc @ [[PStr (fst m), PStr enzyme_model, PInt 0, PInt port_number]]))"

text \<open>
  The method up to its last call: the parameter writer after \<^verbatim>\<open>add_space\<close> and the
  arguments of \<^verbatim>\<open>write_coupled_model\<close>.
\<close>

definition organelle_descriptor ::
  "constants \<Rightarrow> ('d, 'x) ModelGenerator \<Rightarrow> 'd parameter_writer \<Rightarrow> 'd ModelStructure
   \<Rightarrow> py_error + ('d parameter_writer \<times> coupled_model)" where
  "organelle_descriptor K self w compartment =
     ebind (generate_enzyme_sets self w compartment) (\<lambda>(w1, es).
     let w2 = w1 @ [Space (id' compartment) (space_parameters compartment)
                      (routing_table compartment)];
         space = space_atomic_model K self (id' compartment) (int (length es));
         subs = space # map fst (od_values es)
     in
     ebind (organelle_ic space (id' compartment) es (routing_table compartment) []) (\<lambda>ic_list.
     case organelle_eoc K (od_values es) ([], [], []) of
       (out_port_numbers, out_ports, eoc_list) \<Rightarrow>
     ebind (organelle_eic K (id' compartment) es (membrane_eic compartment) ([], []))
       (\<lambda>(in_ports, eic_list).
     Inr (w2, \<lparr> model_name = id' compartment, sub_models = subs,
                ports = out_ports @ in_ports, eic = eic_list, eoc = eoc_list,
                ic = ic_list \<rparr>))))"

definition generate_organelle_compartment ::
  "constants \<Rightarrow> ('d, 'x) ModelGenerator \<Rightarrow> 'd parameter_writer \<Rightarrow> 'd ModelStructure
   \<Rightarrow> py_error + ('d parameter_writer \<times> (string \<times> 'x \<times> int))" where
  "generate_organelle_compartment K self w compartment =
     ebind (organelle_descriptor K self w compartment) (\<lambda>(w', d).
     Inr (w', write_coupled_model (the_coder self) d))"

subsection \<open>generate_bulk_compartment\<close>

text \<open>\<^verbatim>\<open>max(values)\<close> raises \<^verbatim>\<open>ValueError\<close> on an empty sequence.\<close>

definition py_max :: "int list \<Rightarrow> py_error + int" where
  "py_max vs = (case vs of [] \<Rightarrow> Inl ValueError | v # vs' \<Rightarrow> Inr (fold max vs' v))"

text \<open>
  \<^verbatim>\<open>
  for (es_cid, _), port_number in compartment.routing_table.items():
      if es_cid != cid:
          eoc.append((space, '...'+space+'::'+space, port_number, port_number))
          out_ports.append((port_number, REACTANT_MESSAGE_TYPE, 'out'))
  \<close>
  The state is \<open>(out_ports, eoc)\<close>.
\<close>

fun bulk_eoc ::
  "constants \<Rightarrow> string \<Rightarrow> string \<Rightarrow> routing \<Rightarrow> tuple list \<times> tuple list
   \<Rightarrow> tuple list \<times> tuple list" where
  "bulk_eoc K space cid [] st = st"
| "bulk_eoc K space cid (((es_cid, esn), port_number) # rt) (out_ports, eoc_acc) =
     bulk_eoc K space cid rt
       (if es_cid \<noteq> cid
        then (out_ports @ [[PInt port_number, PStr (REACTANT_MESSAGE_TYPE K), PStr ''out'']],
              eoc_acc @ [[PStr space, PStr (space_struct space),
                          PInt port_number, PInt port_number]])
        else (out_ports, eoc_acc))"

definition bulk_descriptor ::
  "constants \<Rightarrow> ('d, 'x) ModelGenerator \<Rightarrow> 'd parameter_writer \<Rightarrow> 'd ModelStructure
   \<Rightarrow> py_error + ('d parameter_writer \<times> coupled_model)" where
  "bulk_descriptor K self w compartment =
     (let cid = id' compartment in
      ebind (generate_enzyme_sets self w compartment) (\<lambda>(w1, es).
      if length es \<noteq> 1 then Inl AssertionError
      else
      ebind (od_get es (cid, BULK K)) (\<lambda>m.
      let bulk = fst m;
          w2 = w1 @ [Space cid (space_parameters compartment) (routing_table compartment)]
      in
      ebind (py_max (od_values (routing_table compartment))) (\<lambda>mx.
      let output_port_amount = mx + 1;
          space = space_atomic_model K self cid output_port_amount
      in
      ebind (od_get (routing_table compartment) (cid, BULK K)) (\<lambda>bulk_port_number.
      case bulk_eoc K space cid (routing_table compartment) ([], []) of
        (out_ports, eoc_list) \<Rightarrow>
      Inr (w2, \<lparr> model_name = cid, sub_models = [space, bulk],
                 ports = [[PStr ''0_product'', PStr (PRODUCT_MESSAGE_TYPE K), PStr ''in''],
                          [PStr ''0_information'', PStr (INFORMATION_MESSAGE_TYPE K), PStr ''in'']]
                         @ out_ports,
                 eic = [[PStr space, PStr (space_struct space),
                         PStr ''0_product'', PStr ''0_product''],
                        [PStr space, PStr (space_struct space),
                         PStr ''0_information'', PStr ''0_information'']],
                 eoc = eoc_list,
                 ic = ic_edges space bulk bulk_port_number \<rparr>))))))"

definition generate_bulk_compartment ::
  "constants \<Rightarrow> ('d, 'x) ModelGenerator \<Rightarrow> 'd parameter_writer \<Rightarrow> 'd ModelStructure
   \<Rightarrow> py_error + ('d parameter_writer \<times> (string \<times> 'x \<times> int))" where
  "generate_bulk_compartment K self w compartment =
     ebind (bulk_descriptor K self w compartment) (\<lambda>(w', d).
     Inr (w', write_coupled_model (the_coder self) d))"

subsection \<open>generate_top_bulk_ic\<close>

text \<open>
  \<^verbatim>\<open>
  for (cid, esn), c_port_number in bulk_routing_table.items():
      if cid == bulk_cid:
          continue
      if cid == self.periplasm.id:
          periplasm_port_number = self.periplasm.membrane_eic[esn]
          ic.append((bulk_model, bulk_model, c_port_number,
                     periplasm_model, periplasm_model, periplasm_port_number))
  \<close>
\<close>

fun top_bulk_loop ::
  "('d, 'x) ModelGenerator \<Rightarrow> string \<Rightarrow> string \<Rightarrow> string \<Rightarrow> routing \<Rightarrow> tuple list
   \<Rightarrow> py_error + tuple list" where
  "top_bulk_loop self bulk_model bulk_cid periplasm_model [] acc = Inr acc"
| "top_bulk_loop self bulk_model bulk_cid periplasm_model (((cid, esn), c_port_number) # rt) acc =
     (if cid = bulk_cid then top_bulk_loop self bulk_model bulk_cid periplasm_model rt acc
      else if cid = id' (periplasm self) then
        ebind (od_get (membrane_eic (periplasm self)) esn) (\<lambda>periplasm_port_number.
        top_bulk_loop self bulk_model bulk_cid periplasm_model rt
          (acc @ [[PStr bulk_model, PStr bulk_model, PInt c_port_number,
                   PStr periplasm_model, PStr periplasm_model, PInt periplasm_port_number]]))
      else top_bulk_loop self bulk_model bulk_cid periplasm_model rt acc)"

definition generate_top_bulk_ic ::
  "('d, 'x) ModelGenerator \<Rightarrow> string \<Rightarrow> string \<Rightarrow> routing \<Rightarrow> string \<Rightarrow> py_error + tuple list" where
  "generate_top_bulk_ic self bulk_model bulk_cid bulk_routing_table periplasm_model =
     (let periplasm_oport_number = (if bulk_cid = id' (cytoplasm self) then 1 else 2) in
      top_bulk_loop self bulk_model bulk_cid periplasm_model bulk_routing_table
        [[PStr periplasm_model, PStr periplasm_model,
          PStr (str periplasm_oport_number @ ''_product''),
          PStr bulk_model, PStr bulk_model, PStr ''0_product''],
         [PStr periplasm_model, PStr periplasm_model,
          PStr (str periplasm_oport_number @ ''_information''),
          PStr bulk_model, PStr bulk_model, PStr ''0_information'']])"

subsection \<open>generate_top\<close>

text \<open>
  \<^verbatim>\<open>
  for cid, model_structure in self.organelles.items():
      organelle_models[cid] = self.generate_organelle_compartment(model_structure)
      sub_models.append(organelle_models[cid][0])
  \<close>
  The state is the parameter writer, \<open>organelle_models\<close> and \<open>sub_models\<close>.
\<close>

fun organelle_models_loop ::
  "constants \<Rightarrow> ('d, 'x) ModelGenerator \<Rightarrow> (string, 'd ModelStructure) odict
   \<Rightarrow> 'd parameter_writer \<times> (string, string \<times> 'x \<times> int) odict \<times> string list
   \<Rightarrow> py_error + ('d parameter_writer \<times> (string, string \<times> 'x \<times> int) odict \<times> string list)" where
  "organelle_models_loop K self [] st = Inr st"
| "organelle_models_loop K self ((cid, model_structure) # os) (w, organelle_models, subs) =
     ebind (generate_organelle_compartment K self w model_structure) (\<lambda>(w', r).
     organelle_models_loop K self os (w', od_set cid r organelle_models, subs @ [fst r]))"

text \<open>
  \<^verbatim>\<open>
  for cid, (model_name, _, output_port_amount) in organelle_models.items():
      for esn, es_port_number in self.organelles[cid].membrane_eic.items():
          c_port_number = self.cytoplasm.routing_table[(cid, esn)]
          ic.append((cytoplasm_model, c_port_number, model_name, es_port_number))
          ic.append((model_name, model_name, "1_product",
                     cytoplasm_model, cytoplasm_model, "0_product"))
          ic.append((model_name, model_name, "1_information",
                     cytoplasm_model, cytoplasm_model, "0_information"))
          if output_port_amount > 1:
              e_port_number = self.cytoplasm.routing_table[(cid, esn)]
              ic.append((extra_cellular_model, extra_cellular_model, e_port_number,
                         model_name, model_name, es_port_number))
              ic.append((model_name, model_name, "2_product",
                         extra_cellular_model, extra_cellular_model, "0_product"))
              ic.append((model_name, model_name, "2_information",
                         extra_cellular_model, extra_cellular_model, "0_information"))
  \<close>
\<close>

fun top_membrane_loop ::
  "('d, 'x) ModelGenerator \<Rightarrow> string \<Rightarrow> string \<Rightarrow> string \<Rightarrow> string \<Rightarrow> int
   \<Rightarrow> (string, int) odict \<Rightarrow> tuple list \<Rightarrow> py_error + tuple list" where
  "top_membrane_loop self cytoplasm_model extra_cellular_model cid mname output_port_amount
     [] acc = Inr acc"
| "top_membrane_loop self cytoplasm_model extra_cellular_model cid mname output_port_amount
     ((esn, es_port_number) # ms) acc =
     ebind (od_get (routing_table (cytoplasm self)) (cid, esn)) (\<lambda>c_port_number.
     let acc1 = acc @
           [[PStr cytoplasm_model, PInt c_port_number, PStr mname, PInt es_port_number],
            [PStr mname, PStr mname, PStr ''1_product'',
             PStr cytoplasm_model, PStr cytoplasm_model, PStr ''0_product''],
            [PStr mname, PStr mname, PStr ''1_information'',
             PStr cytoplasm_model, PStr cytoplasm_model, PStr ''0_information'']]
     in
     if output_port_amount > 1 then
       ebind (od_get (routing_table (cytoplasm self)) (cid, esn)) (\<lambda>e_port_number.
       top_membrane_loop self cytoplasm_model extra_cellular_model cid mname output_port_amount ms
         (acc1 @
           [[PStr extra_cellular_model, PStr extra_cellular_model, PInt e_port_number,
             PStr mname, PStr mname, PInt es_port_number],
            [PStr mname, PStr mname, PStr ''2_product'',
             PStr extra_cellular_model, PStr extra_cellular_model, PStr ''0_product''],
            [PStr mname, PStr mname, PStr ''2_information'',
             PStr extra_cellular_model, PStr extra_cellular_model, PStr ''0_information'']]))
     else
       top_membrane_loop self cytoplasm_model extra_cellular_model cid mname output_port_amount
         ms acc1)"

fun top_organelle_ic ::
  "('d, 'x) ModelGenerator \<Rightarrow> string \<Rightarrow> string \<Rightarrow> (string, string \<times> 'x \<times> int) odict
   \<Rightarrow> tuple list \<Rightarrow> py_error + tuple list" where
  "top_organelle_ic self cytoplasm_model extra_cellular_model [] acc = Inr acc"
| "top_organelle_ic self cytoplasm_model extra_cellular_model
     ((cid, (mname, x, output_port_amount)) # oms) acc =
     ebind (od_get (organelles self) cid) (\<lambda>organelle.
     ebind (top_membrane_loop self cytoplasm_model extra_cellular_model cid mname
              output_port_amount (membrane_eic organelle) acc) (\<lambda>acc'.
     top_organelle_ic self cytoplasm_model extra_cellular_model oms acc'))"

definition top_descriptor ::
  "constants \<Rightarrow> ('d, 'x) ModelGenerator \<Rightarrow> 'd parameter_writer \<Rightarrow> string
   \<Rightarrow> py_error + ('d parameter_writer \<times> coupled_model)" where
  "top_descriptor K self w top_name =
     (let w1 = w @ map (\<lambda>(rid, parameters). Reaction rid parameters)
                       (reactions (the_parser self));
          w2 = w1 @ map (\<lambda>(eid, parameters). Enzyme eid parameters)
                        (enzymes (the_parser self))
      in
      ebind (generate_bulk_compartment K self w2 (cytoplasm self)) (\<lambda>(w3, c).
      ebind (generate_bulk_compartment K self w3 (extra_cellular self)) (\<lambda>(w4, e).
      ebind (generate_organelle_compartment K self w4 (periplasm self)) (\<lambda>(w5, p).
      let cytoplasm_model = fst c; extra_cellular_model = fst e; periplasm_model = fst p in
      ebind (organelle_models_loop K self (organelles self)
               (w5, [], [cytoplasm_model, extra_cellular_model, periplasm_model]))
        (\<lambda>(w6, organelle_models, subs).
      ebind (generate_top_bulk_ic self cytoplasm_model (id' (cytoplasm self))
               (routing_table (cytoplasm self)) periplasm_model) (\<lambda>ic1.
      ebind (generate_top_bulk_ic self extra_cellular_model (id' (extra_cellular self))
               (routing_table (extra_cellular self)) periplasm_model) (\<lambda>ic2.
      ebind (top_organelle_ic self cytoplasm_model extra_cellular_model organelle_models
               (ic1 @ ic2)) (\<lambda>ic3.
      Inr (w6 @ [SaveXml],
           \<lparr> model_name = top_name, sub_models = subs, ports = [], eic = [], eoc = [],
             ic = ic3 \<rparr>)))))))))"

definition generate_top ::
  "constants \<Rightarrow> ('d, 'x) ModelGenerator \<Rightarrow> 'd parameter_writer \<Rightarrow> string
   \<Rightarrow> py_error + ('d parameter_writer \<times> (string \<times> 'x \<times> int))" where
  "generate_top K self w top_name =
     ebind (top_descriptor K self w top_name) (\<lambda>(w', d).
     Inr (w', write_coupled_model (the_coder self) d))"

section \<open>A small model to run the generator on\<close>

text \<open>
  Concrete collaborators for evaluating the definitions: reaction-set names, a parser
  with the compartments \<open>e\<close>, \<open>p\<close>, \<open>c\<close> and one organelle \<open>o\<close>, and a code writer that
  names an enzyme-set model \<open>cid_esn\<close> and reports three output ports for every model.
\<close>

definition example_constants :: constants where
  "example_constants =
     \<lparr> BULK = ''bulk'', MEMBRANE = ''membrane'', OUTER = ''outer'', INNER = ''inner'',
       TRANS = ''trans'', PRODUCT_MESSAGE_TYPE = ''Product'',
       REACTANT_MESSAGE_TYPE = ''Reactant'', INFORMATION_MESSAGE_TYPE = ''Information'' \<rparr>"

definition example_enzyme_set :: "string \<Rightarrow> string \<Rightarrow> (string, nat) odict" where
  "example_enzyme_set cid esn = [(''E1'', 1), (''E2'', 2), (''E3'', 3)]"

definition example_species :: "(string, nat) odict" where
  "example_species = [(''M1'', 7)]"

definition example_parser :: "nat parser" where
  "example_parser =
     \<lparr> get_enzyme_set = example_enzyme_set,
       get_related_reaction_parameters = (\<lambda>cid. [(''R1'', 0)]),
       metabolite_amounts = [(''M1'', 600000)],
       parse_compartments_species =
         [(''e'', example_species), (''p'', example_species),
          (''c'', example_species), (''o'', example_species)],
       interval_times = [(''e'', 1), (''p'', 1), (''c'', 1), (''o'', 1)],
       get_compartment_volume = (\<lambda>cid. 1),
       get_enzymes = (\<lambda>rids. 0),
       get_compartments = [''e'', ''p'', ''c'', ''o''],
       reactions = [(''R1'', 0)],
       enzymes = [(''E1'', 0), (''E2'', 0), (''E3'', 0)] \<rparr>"

definition example_coder :: "unit coder" where
  "example_coder =
     \<lparr> write_enzyme_set = (\<lambda>cid esn groups_enzyme_ids. (join_underscore [cid, esn], (), 3)),
       write_space_atomic_model = (\<lambda>cid cids n_out n_in pt rt it. cid @ ''_space''),
       write_coupled_model = (\<lambda>d. (model_name d, (), 3)) \<rparr>"

definition five_enzymes :: "(string, nat) odict" where
  "five_enzymes = [(''E1'', 1), (''E2'', 2), (''E3'', 3), (''E4'', 4), (''E5'', 5)]"

definition example_generator :: "int \<Rightarrow> py_error + (nat, unit) ModelGenerator" where
  "example_generator gsize =
     ModelGenerator_init example_constants example_coder example_parser ''e'' ''p'' ''c'' gsize"

text \<open>The bulk enzyme set of \<open>c\<close> with five enzymes, generated with groups of two.\<close>

definition example_enzyme_set_run ::
  "py_error + (nat parameter_writer \<times> (string \<times> unit \<times> int))" where
  "example_enzyme_set_run =
     ebind (example_generator 2)
       (\<lambda>self. generate_enzyme_set self [] ''c'' ''bulk'' five_enzymes)"

text \<open>
  Two structures for \<open>p\<close> without membranes whose external reaction sets name \<open>p\<close> itself:
  the first has only the set \<open>x\<close> under \<open>p\<close>, the second also a set \<open>y\<close> of another
  compartment \<open>q\<close>. \<open>organelle_run\<close> generates such a structure as an organelle compartment.
\<close>

definition own_ext_structure :: "py_error + nat ModelStructure" where
  "own_ext_structure =
     ModelStructure_init example_constants ''p'' example_parser [] [(''p'', [''x''])]"

definition mixed_ext_structure :: "py_error + nat ModelStructure" where
  "mixed_ext_structure =
     ModelStructure_init example_constants ''p'' example_parser []
       [(''p'', [''x'']), (''q'', [''y''])]"

definition organelle_run ::
  "py_error + nat ModelStructure
   \<Rightarrow> py_error + (nat parameter_writer \<times> (string \<times> unit \<times> int))" where
  "organelle_run structure =
     ebind (example_generator 2) (\<lambda>self.
     ebind structure (\<lambda>c.
     generate_organelle_compartment example_constants self [] c))"

section \<open>Dictionaries and ranges: basic facts\<close>

lemma od_set_fresh: "k \<notin> fst ` set d \<Longrightarrow> od_set k v d = d @ [(k, v)]"
  by (induction d) auto

lemma od_get_distinct: "distinct (map fst d) \<Longrightarrow> (k, v) \<in> set d \<Longrightarrow> od_get d k = Inr v"
  by (induction d) (auto simp: rev_image_eqI)

lemma od_update_fresh:
  "distinct (map fst kvs) \<Longrightarrow> fst ` set d \<inter> fst ` set kvs = {} \<Longrightarrow> od_update d kvs = d @ kvs"
proof (induction kvs arbitrary: d)
  case Nil
  then show ?case by simp
next
  case (Cons kv kvs)
  obtain k v where kv: "kv = (k, v)" by (cases kv)
  have fresh: "k \<notin> fst ` set d" using Cons.prems kv by auto
  have "od_update (d @ [(k, v)]) kvs = (d @ [(k, v)]) @ kvs"
  proof (rule Cons.IH)
    show "distinct (map fst kvs)" using Cons.prems by simp
    show "fst ` set (d @ [(k, v)]) \<inter> fst ` set kvs = {}"
      using Cons.prems kv by (auto simp: rev_image_eqI)
  qed
  then show ?case using kv fresh by (simp add: od_set_fresh)
qed

lemma dict_comp_distinct:
  "distinct (map fst data) \<Longrightarrow> set xs \<subseteq> set data \<Longrightarrow> distinct (map fst xs) \<Longrightarrow>
   fst ` set acc \<inter> fst ` set xs = {} \<Longrightarrow>
   dict_comp data (map fst xs) acc = Inr (acc @ xs)"
proof (induction xs arbitrary: acc)
  case Nil
  then show ?case by simp
next
  case (Cons x xs)
  obtain k v where x: "x = (k, v)" by (cases x)
  from Cons.prems x have g: "od_get data k = Inr v"
    by (auto intro: od_get_distinct)
  from Cons.prems x have fresh: "k \<notin> fst ` set acc" by auto
  have "dict_comp data (map fst xs) (acc @ [(k, v)]) = Inr ((acc @ [(k, v)]) @ xs)"
  proof (rule Cons.IH)
    show "fst ` set (acc @ [(k, v)]) \<inter> fst ` set xs = {}"
      using Cons.prems x by (auto simp: rev_image_eqI)
  qed (use Cons.prems in auto)
  then show ?case
    using g fresh x by (simp add: ebind_def od_set_fresh)
qed

lemma length_range_up:
  "0 < s \<Longrightarrow> length (range_up i n s) = nat ((n - i + s - 1) div s)"
proof (induction i n s rule: range_up.induct)
  case (1 i stop step)
  show ?case
  proof (cases "i < stop")
    case True
    have "stop - i + step - 1 = (stop - (i + step) + step - 1) + step" by simp
    then have "(stop - i + step - 1) div step = (stop - (i + step) + step - 1) div step + 1"
      using 1(2) by (metis div_add_self2 less_irrefl)
    moreover have "0 \<le> (stop - (i + step) + step - 1) div step"
      using True 1(2) by (simp add: pos_imp_zdiv_nonneg_iff)
    ultimately show ?thesis
      using 1 True by (subst range_up.simps) (simp add: nat_add_distrib)
  next
    case False
    then have "(stop - i + step - 1) div step \<le> (step - 1) div step"
      using 1(2) by (intro zdiv_mono1) auto
    then have "(stop - i + step - 1) div step \<le> 0"
      using 1(2) by (simp add: div_pos_pos_trivial)
    then show ?thesis using False by (subst range_up.simps) simp
  qed
qed

lemma range_up_unit: "range_up i (i + int n) 1 = map (\<lambda>k. i + int k) [0..<n]"
proof (induction n arbitrary: i)
  case 0
  show ?case by (simp add: range_up.simps[of i i])
next
  case (Suc n)
  have "range_up i (i + int (Suc n)) 1 = i # range_up (i + 1) ((i + 1) + int n) 1"
    by (subst range_up.simps) (simp add: ac_simps)
  also have "\<dots> = i # map (\<lambda>k. (i + 1) + int k) [0..<n]"
    by (simp only: Suc.IH)
  also have "\<dots> = map (\<lambda>k. i + int k) [0..<Suc n]"
    by (simp add: upt_rec[of 0 "Suc n"] map_Suc_upt[symmetric] add.assoc del: upt_Suc)
  finally show ?case .
qed

lemma range_up_length: "range_up 0 (int n) 1 = map int [0..<n]"
  using range_up_unit[of 0 n] by simp

lemma enumerate_ports_eq: "enumerate_ports xs = zip xs (map int [0..<length xs])"
  by (simp add: enumerate_ports_def range_up_length)

lemma ceil_div:
  assumes "0 < s"
  shows "\<lceil>real_of_int n / real_of_int s\<rceil> = (n + s - 1) div (s::int)"
proof (rule ceiling_unique)
  let ?z = "(n + s - 1) div s"
  have m: "0 \<le> (n + s - 1) mod s" "(n + s - 1) mod s < s"
    using assms by simp_all
  have e: "s * ?z + (n + s - 1) mod s = n + s - 1"
    by simp
  have lo: "s * ?z - s < n" using e m by linarith
  have hi: "n \<le> s * ?z" using e m by linarith
  have "real_of_int (s * ?z - s) < real_of_int n"
    using lo by (simp only: of_int_less_iff)
  then have "(real_of_int ?z - 1) * real_of_int s < real_of_int n"
    by (simp add: algebra_simps)
  then show "real_of_int ?z - 1 < real_of_int n / real_of_int s"
    using assms by (simp add: pos_less_divide_eq)
  have "real_of_int n \<le> real_of_int (s * ?z)"
    using hi by (simp only: of_int_le_iff)
  then have "real_of_int n \<le> real_of_int ?z * real_of_int s"
    by (simp add: algebra_simps)
  then show "real_of_int n / real_of_int s \<le> real_of_int ?z"
    using assms by (simp add: pos_divide_le_eq)
qed

lemma concat_unique_index:
  "distinct (concat xss) \<Longrightarrow> i < length xss \<Longrightarrow> j < length xss \<Longrightarrow>
   x \<in> set (xss ! i) \<Longrightarrow> x \<in> set (xss ! j) \<Longrightarrow> i = j"
proof (induction xss arbitrary: i j)
  case Nil
  then show ?case by simp
next
  case (Cons xs xss)
  have later: "x \<in> set (xss ! k) \<Longrightarrow> k < length xss \<Longrightarrow> x \<in> \<Union> (set ` set xss)" for k
    using nth_mem by blast
  show ?case
  proof (cases i)
    case 0
    note i0 = 0
    show ?thesis
    proof (cases j)
      case 0
      then show ?thesis using i0 by simp
    next
      case (Suc j')
      then have "x \<in> \<Union> (set ` set xss)" using Cons.prems later[of j'] by simp
      moreover have "x \<in> set xs" using i0 Cons.prems by simp
      ultimately show ?thesis using Cons.prems(1) by auto
    qed
  next
    case (Suc i')
    note iS = Suc
    show ?thesis
    proof (cases j)
      case 0
      have "x \<in> \<Union> (set ` set xss)" using iS Cons.prems later[of i'] by simp
      moreover have "x \<in> set xs" using 0 Cons.prems by simp
      ultimately show ?thesis using Cons.prems(1) by auto
    next
      case (Suc j')
      have "i' = j'"
        using Cons.IH[of i' j'] Cons.prems iS Suc by simp
      then show ?thesis using iS Suc by simp
    qed
  qed
qed

section \<open>chunks partitions its input\<close>

lemma chunks_loop_suffix:
  assumes "distinct (map fst data)" and "0 < SIZE \<and> SIZE \<le> sys_maxsize"
  shows "set rest \<subseteq> set data \<Longrightarrow> distinct (map fst rest) \<Longrightarrow>
     \<exists>gs. chunks_loop data (map fst rest) r SIZE = Inr gs \<and> length gs = length r \<and>
          concat gs = take (length r * nat SIZE) rest \<and> (\<forall>g\<in>set gs. length g \<le> nat SIZE)"
proof (induction r arbitrary: rest)
  case Nil
  then show ?case by simp
next
  case (Cons i r)
  let ?n = "nat SIZE"
  have sub: "set (take ?n rest) \<subseteq> set data" "set (drop ?n rest) \<subseteq> set data"
    using Cons.prems(1) by (meson set_take_subset set_drop_subset subset_trans)+
  have d: "distinct (map fst (take ?n rest))" "distinct (map fst (drop ?n rest))"
    using Cons.prems(2) by (simp_all add: take_map[symmetric] drop_map[symmetric])
  have g: "dict_comp data (map fst (take ?n rest)) [] = Inr (take ?n rest)"
    using dict_comp_distinct[OF assms(1) sub(1) d(1), of "[]"] by simp
  from Cons.IH[OF sub(2) d(2)] obtain gs where
    gs: "chunks_loop data (map fst (drop ?n rest)) r SIZE = Inr gs" "length gs = length r"
        "concat gs = take (length r * ?n) (drop ?n rest)" "\<forall>g\<in>set gs. length g \<le> ?n"
    by blast
  have "chunks_loop data (map fst rest) (i # r) SIZE = Inr (take ?n rest # gs)"
    using assms(2) g gs(1) by (simp add: islice_def ebind_def take_map drop_map)
  moreover have "concat (take ?n rest # gs) = take (length (i # r) * ?n) rest"
    using gs(3) by (simp add: take_add add.commute)
  ultimately show ?case using gs(2,4) by auto
qed

lemma chunks_whole:
  assumes size: "0 < SIZE" and bound: "SIZE \<le> sys_maxsize" and d: "distinct (map fst data)"
  shows "\<exists>gs. chunks data SIZE = Inr gs \<and>
      int (length gs) = (int (length data) + SIZE - 1) div SIZE \<and>
      (\<forall>g\<in>set gs. length g \<le> nat SIZE) \<and> concat gs = data"
proof -
  let ?r = "range_up 0 (int (length data)) SIZE"
  from chunks_loop_suffix[OF d conjI[OF size bound], of data ?r] d obtain gs where
    gs: "chunks_loop data (map fst data) ?r SIZE = Inr gs" "length gs = length ?r"
        "concat gs = take (length ?r * nat SIZE) data" "\<forall>g\<in>set gs. length g \<le> nat SIZE"
    by auto
  have run: "chunks data SIZE = Inr gs"
    using size gs(1) by (simp add: chunks_def py_range_def ebind_def od_keys_def)
  have len: "int (length gs) = (int (length data) + SIZE - 1) div SIZE"
    using size gs(2) by (simp add: length_range_up pos_imp_zdiv_nonneg_iff)
  have "int (length data) \<le> SIZE * ((int (length data) + SIZE - 1) div SIZE)"
  proof -
    have "(int (length data) + SIZE - 1) mod SIZE < SIZE" using size by simp
    moreover have "SIZE * ((int (length data) + SIZE - 1) div SIZE)
        + (int (length data) + SIZE - 1) mod SIZE = int (length data) + SIZE - 1" by simp
    ultimately show ?thesis by linarith
  qed
  then have "int (length data) \<le> int (length gs * nat SIZE)"
    using len size by (simp add: mult.commute)
  then have "length data \<le> length ?r * nat SIZE"
    using gs(2) by (simp only: of_nat_le_iff)
  then have whole: "concat gs = data" using gs(3) by simp
  from run len gs(4) whole show ?thesis by blast
qed

text \<open>
  Claim C2, as amended. For an ordered mapping \<open>data\<close> (a dictionary: its keys are
  distinct) and a positive \<open>SIZE\<close> not above \<open>sys.maxsize\<close>, \<open>chunks data SIZE\<close> yields
  \<open>\<lceil>|data| / SIZE\<rceil>\<close> groups of at most \<open>SIZE\<close> entries each; the groups concatenated in
  yield order are \<open>data\<close> itself, so every key is in exactly one group and none is left
  out; and an empty mapping yields no group.
\<close>

theorem chunks_partition:
  assumes size: "0 < SIZE" and bound: "SIZE \<le> sys_maxsize"
      and dict: "distinct (od_keys data)"
  shows "\<exists>gs. chunks data SIZE = Inr gs \<and>
      int (length gs) = \<lceil>real (length data) / real_of_int SIZE\<rceil> \<and>
      (\<forall>g\<in>set gs. length g \<le> nat SIZE) \<and>
      concat gs = data \<and>
      (\<forall>k\<in>set (od_keys data). \<exists>!j. j < length gs \<and> k \<in> set (od_keys (gs ! j))) \<and>
      (data = [] \<longrightarrow> gs = [])"
proof -
  have d: "distinct (map fst data)" using dict by (simp add: od_keys_def)
  from chunks_whole[OF size bound d] obtain gs where
    run: "chunks data SIZE = Inr gs" and
    len: "int (length gs) = (int (length data) + SIZE - 1) div SIZE" and
    small: "\<forall>g\<in>set gs. length g \<le> nat SIZE" and
    whole: "concat gs = data"
    by blast
  have cnt: "int (length gs) = \<lceil>real (length data) / real_of_int SIZE\<rceil>"
    using ceil_div[OF size, of "int (length data)"] len by simp
  have uniq: "\<exists>!j. j < length gs \<and> k \<in> set (od_keys (gs ! j))" if k: "k \<in> set (od_keys data)" for k
  proof -
    have dk: "distinct (concat (map (map fst) gs))"
      using d whole by (simp add: map_concat[symmetric])
    from k whole have "k \<in> set (concat (map (map fst) gs))"
      by (simp add: od_keys_def map_concat[symmetric])
    then obtain g where g: "g \<in> set gs" "k \<in> set (map fst g)" by auto
    then obtain j where j: "j < length gs" "gs ! j = g" by (auto simp: in_set_conv_nth)
    show ?thesis
    proof (rule ex1I[of _ j])
      show "j < length gs \<and> k \<in> set (od_keys (gs ! j))"
        using j g by (simp add: od_keys_def)
    next
      fix j' assume a: "j' < length gs \<and> k \<in> set (od_keys (gs ! j'))"
      show "j' = j"
        using concat_unique_index[OF dk, of j' j k] a j g by (simp add: od_keys_def)
    qed
  qed
  have "data = [] \<longrightarrow> gs = []"
  proof
    assume "data = []"
    then have "int (length gs) = (SIZE - 1) div SIZE" using len by simp
    then show "gs = []" using size by (simp add: div_pos_pos_trivial)
  qed
  with run cnt small whole uniq show ?thesis by blast
qed

theorem chunks_partition_witness:
  "\<exists>gs. chunks five_enzymes 2 = Inr gs \<and>
      int (length gs) = \<lceil>real (length five_enzymes) / real_of_int 2\<rceil> \<and>
      concat gs = five_enzymes"
  using chunks_partition[of 2 five_enzymes]
  by (auto simp: od_keys_def five_enzymes_def sys_maxsize_def)

text \<open>
  The claim as stated, for every positive \<open>SIZE\<close>, fails above \<open>sys.maxsize\<close>: \<^verbatim>\<open>range\<close>
  accepts the step \<open>2 ^ 63\<close> and the loop body runs once on a non-empty mapping, where
  \<^verbatim>\<open>islice\<close> raises \<^verbatim>\<open>ValueError\<close>; no group is yielded.
\<close>

theorem chunks_partition_counterexample:
  "(0::int) < 2 ^ 63 \<and> distinct (od_keys five_enzymes) \<and>
   chunks five_enzymes (2 ^ 63) = Inl ValueError"
  by (simp add: chunks_def py_range_def ebind_def islice_def sys_maxsize_def od_keys_def
        five_enzymes_def range_up.simps[of 0 5] range_up.simps[of "9223372036854775808" 5])

section \<open>The tables built by ModelStructure\<close>

lemma build_membrane_eic_distinct:
  assumes "distinct membranes"
  shows "build_membrane_eic membranes = zip membranes (map int [0..<length membranes])"
proof -
  let ?kvs = "zip membranes (map int [0..<length membranes])"
  have "distinct (map fst ?kvs)" using assms by (simp add: map_fst_zip)
  then have "od_update [] ?kvs = [] @ ?kvs" by (intro od_update_fresh) simp_all
  then show ?thesis by (simp add: build_membrane_eic_def enumerate_ports_eq)
qed

lemma internal_routing_distinct:
  assumes "distinct ies"
  shows "internal_routing cid ies = zip (map (Pair cid) ies) (map int [0..<length ies])"
proof -
  let ?kvs = "map (\<lambda>(esn, port). ((cid, esn), port)) (zip ies (map int [0..<length ies]))"
  have e: "?kvs = zip (map (Pair cid) ies) (map int [0..<length ies])"
    by (simp add: zip_map1)
  have "distinct (map fst ?kvs)"
    unfolding e using assms by (simp add: map_fst_zip distinct_map inj_on_def)
  then have "od_update [] ?kvs = [] @ ?kvs"
    by (intro od_update_fresh) simp_all
  then show ?thesis
    unfolding internal_routing_def enumerate_ports_eq e by simp
qed

lemma add_reaction_sets_fresh:
  "distinct rss \<Longrightarrow> Pair c ` set rss \<inter> fst ` set rt = {} \<Longrightarrow>
   add_reaction_sets c rss (rt, pn) =
     (rt @ zip (map (Pair c) rss) (map (\<lambda>k. pn + int k) [0..<length rss]), pn + int (length rss))"
proof (induction rss arbitrary: rt pn)
  case Nil
  then show ?case by simp
next
  case (Cons r rss)
  have fresh: "(c, r) \<notin> fst ` set rt" using Cons.prems by auto
  have step: "add_reaction_sets c rss (rt @ [((c, r), pn)], pn + 1) =
     ((rt @ [((c, r), pn)]) @ zip (map (Pair c) rss) (map (\<lambda>k. (pn + 1) + int k) [0..<length rss]),
      (pn + 1) + int (length rss))"
  proof (rule Cons.IH)
    show "distinct rss" using Cons.prems by simp
    show "Pair c ` set rss \<inter> fst ` set (rt @ [((c, r), pn)]) = {}"
      using Cons.prems by auto
  qed
  have shift: "map (\<lambda>k. pn + int k) [0..<length (r # rss)] =
      pn # map (\<lambda>k. (pn + 1) + int k) [0..<length rss]"
    by (simp add: upt_rec[of 0 "Suc (length rss)"] map_Suc_upt[symmetric] add.assoc del: upt_Suc)
  show ?case
    unfolding shift using fresh step by (simp add: od_set_fresh add.assoc)
qed

lemma add_external_fresh:
  "distinct (ext_pairs ext) \<Longrightarrow> set (ext_pairs ext) \<inter> fst ` set rt = {} \<Longrightarrow>
   add_external ext (rt, pn) =
     (rt @ zip (ext_pairs ext) (map (\<lambda>k. pn + int k) [0..<length (ext_pairs ext)]),
      pn + int (length (ext_pairs ext)))"
proof (induction ext arbitrary: rt pn)
  case Nil
  then show ?case by (simp add: ext_pairs_def)
next
  case (Cons x ext)
  obtain c rss where x: "x = (c, rss)" by (cases x)
  let ?here = "map (Pair c) rss"
  let ?n = "length rss"
  let ?m = "length (ext_pairs ext)"
  have split: "ext_pairs (x # ext) = ?here @ ext_pairs ext"
    by (simp add: ext_pairs_def x)
  have d: "distinct ?here" "distinct (ext_pairs ext)" "set ?here \<inter> set (ext_pairs ext) = {}"
    using Cons.prems(1) unfolding split by auto
  have drss: "distinct rss" using d(1) by (simp add: distinct_map)
  have f1: "Pair c ` set rss \<inter> fst ` set rt = {}"
    using Cons.prems(2) unfolding split by auto
  let ?rt1 = "rt @ zip ?here (map (\<lambda>k. pn + int k) [0..<?n])"
  have one: "add_reaction_sets c rss (rt, pn) = (?rt1, pn + int ?n)"
    by (rule add_reaction_sets_fresh[OF drss f1])
  have keys1: "fst ` set ?rt1 = fst ` set rt \<union> set ?here"
    by (simp add: image_Un set_map[symmetric] map_fst_zip del: set_map)
  have f2: "set (ext_pairs ext) \<inter> fst ` set ?rt1 = {}"
    unfolding keys1 using Cons.prems(2) d(3) unfolding split by auto
  have rest: "add_external ext (?rt1, pn + int ?n) =
     (?rt1 @ zip (ext_pairs ext) (map (\<lambda>k. (pn + int ?n) + int k) [0..<?m]),
      (pn + int ?n) + int ?m)"
    by (rule Cons.IH[OF d(2) f2])
  have sh: "[?n..<?n + ?m] = map (\<lambda>i. i + ?n) [0..<?m]"
    by (simp add: map_add_upt add.commute)
  have "map (\<lambda>k. pn + int k) [?n..<?n + ?m] = map (\<lambda>k. (pn + int ?n) + int k) [0..<?m]"
    unfolding sh by (simp add: ac_simps)
  then have idx: "map (\<lambda>k. pn + int k) [0..<?n + ?m] =
     map (\<lambda>k. pn + int k) [0..<?n] @ map (\<lambda>k. (pn + int ?n) + int k) [0..<?m]"
    by (simp add: upt_add_eq_append[of 0 ?n ?m])
  have z: "zip (?here @ ext_pairs ext) (map (\<lambda>k. pn + int k) [0..<?n + ?m]) =
     zip ?here (map (\<lambda>k. pn + int k) [0..<?n]) @
     zip (ext_pairs ext) (map (\<lambda>k. (pn + int ?n) + int k) [0..<?m])"
    unfolding idx by (simp add: zip_append)
  have len: "length (ext_pairs (x # ext)) = ?n + ?m"
    unfolding split by simp
  have "add_external (x # ext) (rt, pn) = add_external ext (?rt1, pn + int ?n)"
    by (simp add: x one)
  also have "\<dots> = (?rt1 @ zip (ext_pairs ext) (map (\<lambda>k. (pn + int ?n) + int k) [0..<?m]),
      (pn + int ?n) + int ?m)"
    by (rule rest)
  also have "\<dots> = (rt @ zip (ext_pairs (x # ext))
       (map (\<lambda>k. pn + int k) [0..<length (ext_pairs (x # ext))]),
      pn + int (length (ext_pairs (x # ext))))"
    unfolding len unfolding split z by simp
  finally show ?case .
qed

lemma length_ext_pairs: "length (ext_pairs ext) = sum_list (map (\<lambda>(c, rss). length rss) ext)"
  by (induction ext) (auto simp: ext_pairs_def)

lemma build_routing_table_distinct:
  assumes ies: "distinct (internal_enzyme_sets K membranes)"
      and ext: "distinct (ext_pairs ext)"
      and apart: "set (ext_pairs ext) \<inter> Pair cid ` set (internal_enzyme_sets K membranes) = {}"
  shows "build_routing_table K cid membranes ext =
     zip (map (Pair cid) (internal_enzyme_sets K membranes) @ ext_pairs ext)
         (map int [0..<length (internal_enzyme_sets K membranes) + length (ext_pairs ext)])"
proof -
  let ?ies = "internal_enzyme_sets K membranes"
  let ?n = "length ?ies"
  let ?m = "length (ext_pairs ext)"
  let ?rt = "zip (map (Pair cid) ?ies) (map int [0..<?n])"
  have rt: "internal_routing cid ?ies = ?rt" by (rule internal_routing_distinct[OF ies])
  have keys: "fst ` set ?rt = Pair cid ` set ?ies"
    by (simp add: set_map[symmetric] map_fst_zip del: set_map)
  have fresh: "set (ext_pairs ext) \<inter> fst ` set ?rt = {}"
    unfolding keys by (rule apart)
  have run: "add_external ext (?rt, int ?n) =
     (?rt @ zip (ext_pairs ext) (map (\<lambda>k. int ?n + int k) [0..<?m]), int ?n + int ?m)"
    by (rule add_external_fresh[OF ext fresh])
  have sh: "[?n..<?n + ?m] = map (\<lambda>i. i + ?n) [0..<?m]"
    by (simp add: map_add_upt add.commute)
  have "map int [?n..<?n + ?m] = map (\<lambda>k. int ?n + int k) [0..<?m]"
    unfolding sh by (simp add: ac_simps)
  then have idx: "map int [0..<?n + ?m] = map int [0..<?n] @ map (\<lambda>k. int ?n + int k) [0..<?m]"
    by (simp add: upt_add_eq_append[of 0 ?n ?m])
  have z: "zip (map (Pair cid) ?ies @ ext_pairs ext) (map int [0..<?n + ?m]) =
     ?rt @ zip (ext_pairs ext) (map (\<lambda>k. int ?n + int k) [0..<?m])"
    unfolding idx by (simp add: zip_append)
  have "build_routing_table K cid membranes ext = fst (add_external ext (?rt, int ?n))"
    by (simp add: build_routing_table_def rt Let_def)
  also have "\<dots> = ?rt @ zip (ext_pairs ext) (map (\<lambda>k. int ?n + int k) [0..<?m])"
    by (simp only: run fst_conv)
  finally show ?thesis unfolding z .
qed

lemma ModelStructure_init_fields:
  assumes "ModelStructure_init K cid P membranes ext = Inr ms"
  shows "id' ms = cid" and "routing_table ms = build_routing_table K cid membranes ext"
    and "membrane_eic ms = build_membrane_eic membranes"
    and "enzyme_sets ms = build_enzyme_sets P cid (internal_enzyme_sets K membranes) []"
  using assms by (auto simp: ModelStructure_init_def ebind_def split: sum.splits)

text \<open>
  Claim C1, as amended. Let the bulk name and the membrane names be pairwise distinct,
  the external \<open>(supplier, reaction set)\<close> pairs be distinct, and no external pair be
  one of the compartment's own \<open>(cid, BULK)\<close> or \<open>(cid, membrane)\<close> pairs. Then a
  structure built by \<open>ModelStructure_init\<close> has \<open>membrane_eic\<close> mapping the i-th
  membrane to port i, and \<open>routing_table\<close> listing \<open>(cid, BULK)\<close>, the membranes in
  declared order and the external pairs in iteration order against the ports
  \<open>0, 1, 2, \<dots>\<close>: it has \<open>1 + |membranes| + \<Sum> |external sets|\<close> entries, its ports
  are exactly \<open>[0, N)\<close> in order and its keys are distinct. For membranes
  \<open>[OUTER, INNER, TRANS]\<close> and no external sets the two tables are
  \<open>{OUTER:0, INNER:1, TRANS:2}\<close> and
  \<open>{(p,BULK):0, (p,OUTER):1, (p,INNER):2, (p,TRANS):3}\<close>.
\<close>

theorem routing_table_contiguous:
  assumes names: "distinct (BULK K # membranes)"
      and pairs: "distinct (ext_pairs ext)"
      and apart: "set (ext_pairs ext) \<inter> Pair cid ` set (BULK K # membranes) = {}"
      and built: "ModelStructure_init K cid P membranes ext = Inr ms"
  shows "membrane_eic ms = zip membranes (map int [0..<length membranes]) \<and>
     routing_table ms =
       zip ((cid, BULK K) # map (Pair cid) membranes @ ext_pairs ext)
           (map int [0..<1 + length membranes + sum_list (map (\<lambda>(c, rss). length rss) ext)]) \<and>
     length (routing_table ms) =
       1 + length membranes + sum_list (map (\<lambda>(c, rss). length rss) ext) \<and>
     od_values (routing_table ms) =
       map int [0..<1 + length membranes + sum_list (map (\<lambda>(c, rss). length rss) ext)] \<and>
     distinct (od_keys (routing_table ms)) \<and>
     (membranes = [OUTER K, INNER K, TRANS K] \<and> ext = [] \<longrightarrow>
        membrane_eic ms = [(OUTER K, 0), (INNER K, 1), (TRANS K, 2)] \<and>
        routing_table ms = [((cid, BULK K), 0), ((cid, OUTER K), 1),
                            ((cid, INNER K), 2), ((cid, TRANS K), 3)])"
proof -
  let ?N = "1 + length membranes + sum_list (map (\<lambda>(c, rss). length rss) ext)"
  let ?keys = "(cid, BULK K) # map (Pair cid) membranes @ ext_pairs ext"
  have dm: "distinct membranes" using names by simp
  have meic: "membrane_eic ms = zip membranes (map int [0..<length membranes])"
    using ModelStructure_init_fields(3)[OF built] build_membrane_eic_distinct[OF dm] by simp
  have N: "length (internal_enzyme_sets K membranes) + length (ext_pairs ext) = ?N"
    by (simp add: internal_enzyme_sets_def length_ext_pairs)
  have "build_routing_table K cid membranes ext =
     zip (map (Pair cid) (internal_enzyme_sets K membranes) @ ext_pairs ext)
         (map int [0..<length (internal_enzyme_sets K membranes) + length (ext_pairs ext)])"
    using names pairs apart
    by (intro build_routing_table_distinct) (simp_all add: internal_enzyme_sets_def)
  then have rt: "routing_table ms = zip ?keys (map int [0..<?N])"
    unfolding N using ModelStructure_init_fields(2)[OF built]
    by (simp add: internal_enzyme_sets_def)
  have lk: "length ?keys = ?N" by (simp add: length_ext_pairs)
  have len: "length (routing_table ms) = ?N" unfolding rt using lk by simp
  have vals: "od_values (routing_table ms) = map int [0..<?N]"
    unfolding rt od_values_def using lk by (simp add: map_snd_zip)
  have keys: "od_keys (routing_table ms) = ?keys"
    unfolding rt od_keys_def using lk by (simp add: map_fst_zip)
  have d1: "distinct (map (Pair cid) (BULK K # membranes))"
    by (subst distinct_map, rule conjI[OF names]) (simp add: inj_on_def)
  have ke: "?keys = map (Pair cid) (BULK K # membranes) @ ext_pairs ext" by simp
  have "set (map (Pair cid) (BULK K # membranes)) \<inter> set (ext_pairs ext) = {}"
    using apart by (simp only: set_map) blast
  then have dk: "distinct ?keys"
    unfolding ke using d1 pairs by (simp only: distinct_append)
  have scen: "membranes = [OUTER K, INNER K, TRANS K] \<and> ext = [] \<longrightarrow>
        membrane_eic ms = [(OUTER K, 0), (INNER K, 1), (TRANS K, 2)] \<and>
        routing_table ms = [((cid, BULK K), 0), ((cid, OUTER K), 1),
                            ((cid, INNER K), 2), ((cid, TRANS K), 3)]"
  proof
    assume a: "membranes = [OUTER K, INNER K, TRANS K] \<and> ext = []"
    have u3: "[0..<3] = [0, 1, 2]" and u4: "[0..<4] = [0, 1, 2, 3]"
      by (simp_all add: upt_rec)
    show "membrane_eic ms = [(OUTER K, 0), (INNER K, 1), (TRANS K, 2)] \<and>
        routing_table ms = [((cid, BULK K), 0), ((cid, OUTER K), 1),
                            ((cid, INNER K), 2), ((cid, TRANS K), 3)]"
      using meic rt a by (simp add: ext_pairs_def u3 u4)
  qed
  from meic rt len vals dk keys scen show ?thesis by simp
qed

lemma example_init_p:
  "\<not> isl (ModelStructure_init example_constants ''p'' example_parser
            [''outer'', ''inner'', ''trans''] [])"
  by (simp add: ModelStructure_init_def build_space_parameters_def example_parser_def
        example_species_def ebind_def od_keys_def)

lemma example_init_c:
  "\<not> isl (ModelStructure_init example_constants ''c'' example_parser [''m1'']
            [(''o'', [''membrane'']), (''p'', [''inner'', ''trans''])])"
  by (simp add: ModelStructure_init_def build_space_parameters_def example_parser_def
        example_species_def ebind_def od_keys_def)

theorem routing_table_contiguous_witness:
  "(\<exists>ms. ModelStructure_init example_constants ''p'' example_parser
            [''outer'', ''inner'', ''trans''] [] = Inr ms \<and>
         membrane_eic ms = [(''outer'', 0), (''inner'', 1), (''trans'', 2)] \<and>
         routing_table ms = [((''p'', ''bulk''), 0), ((''p'', ''outer''), 1),
                             ((''p'', ''inner''), 2), ((''p'', ''trans''), 3)]) \<and>
   (\<exists>ms. ModelStructure_init example_constants ''c'' example_parser [''m1'']
            [(''o'', [''membrane'']), (''p'', [''inner'', ''trans''])] = Inr ms \<and>
         membrane_eic ms = [(''m1'', 0)] \<and>
         routing_table ms = [((''c'', ''bulk''), 0), ((''c'', ''m1''), 1),
                             ((''o'', ''membrane''), 2), ((''p'', ''inner''), 3),
                             ((''p'', ''trans''), 4)])"
proof
  let ?K = example_constants
  obtain ms where ms: "ModelStructure_init ?K ''p'' example_parser
      [''outer'', ''inner'', ''trans''] [] = Inr ms"
    using example_init_p
    by (cases "ModelStructure_init ?K ''p'' example_parser [''outer'', ''inner'', ''trans''] []")
       simp_all
  have h1: "distinct (BULK ?K # [''outer'', ''inner'', ''trans''])"
    by (simp add: example_constants_def)
  have h2: "distinct (ext_pairs [])" by (simp add: ext_pairs_def)
  have h3: "set (ext_pairs []) \<inter> Pair ''p'' ` set (BULK ?K # [''outer'', ''inner'', ''trans'']) = {}"
    by (simp add: ext_pairs_def)
  from routing_table_contiguous[OF h1 h2 h3 ms]
  show "\<exists>ms. ModelStructure_init ?K ''p'' example_parser
            [''outer'', ''inner'', ''trans''] [] = Inr ms \<and>
         membrane_eic ms = [(''outer'', 0), (''inner'', 1), (''trans'', 2)] \<and>
         routing_table ms = [((''p'', ''bulk''), 0), ((''p'', ''outer''), 1),
                             ((''p'', ''inner''), 2), ((''p'', ''trans''), 3)]"
    using ms by (simp add: example_constants_def)
next
  let ?K = example_constants
  let ?ext = "[(''o'', [''membrane'']), (''p'', [''inner'', ''trans''])]"
  obtain ms where ms: "ModelStructure_init ?K ''c'' example_parser [''m1''] ?ext = Inr ms"
    using example_init_c
    by (cases "ModelStructure_init ?K ''c'' example_parser [''m1''] ?ext") simp_all
  have h1: "distinct (BULK ?K # [''m1''])" by (simp add: example_constants_def)
  have h2: "distinct (ext_pairs ?ext)" by (simp add: ext_pairs_def)
  have h3: "set (ext_pairs ?ext) \<inter> Pair ''c'' ` set (BULK ?K # [''m1'']) = {}"
    by (simp add: ext_pairs_def)
  have u: "[0..<5] = [0, 1, 2, 3, 4]" by (simp add: upt_rec)
  from routing_table_contiguous[OF h1 h2 h3 ms]
  show "\<exists>ms. ModelStructure_init ?K ''c'' example_parser [''m1''] ?ext = Inr ms \<and>
         membrane_eic ms = [(''m1'', 0)] \<and>
         routing_table ms = [((''c'', ''bulk''), 0), ((''c'', ''m1''), 1),
                             ((''o'', ''membrane''), 2), ((''p'', ''inner''), 3),
                             ((''p'', ''trans''), 4)]"
    using ms by (simp add: example_constants_def ext_pairs_def u)
qed

text \<open>
  The claim as stated fails. A membrane named like the bulk satisfies its provisos (the
  membrane names are distinct, there is no external set), yet the table has one entry,
  with port 1, where the claim has two entries with the ports 0 and 1. An external set
  supplied under the compartment's own id overwrites an internal entry in the same way.
  And without the provisos a repeated membrane name is mapped to its last position, not
  to the position of its first occurrence.
\<close>

theorem routing_table_contiguous_counterexample:
  "distinct [''bulk''] \<and> distinct (ext_pairs []) \<and>
   map_sum id routing_table
     (ModelStructure_init example_constants ''p'' example_parser [''bulk''] [])
     = Inr [((''p'', ''bulk''), 1)] \<and>
   distinct (ext_pairs [(''p'', [''bulk''])]) \<and>
   map_sum id routing_table
     (ModelStructure_init example_constants ''p'' example_parser [] [(''p'', [''bulk''])])
     = Inr [((''p'', ''bulk''), 1)] \<and>
   map_sum id membrane_eic
     (ModelStructure_init example_constants ''p'' example_parser [''m'', ''m''] [])
     = Inr [(''m'', 1)]"
  by (simp add: ModelStructure_init_def build_space_parameters_def example_parser_def
        example_species_def ebind_def od_keys_def ext_pairs_def example_constants_def
        build_routing_table_def internal_routing_def internal_enzyme_sets_def
        build_membrane_eic_def enumerate_ports_def range_up.simps)

section \<open>generate_enzyme_set has no size limit\<close>

lemmas example_defs =
  ModelGenerator_init_def ModelStructure_init_def build_space_parameters_def
  example_parser_def example_species_def example_enzyme_set_def example_coder_def
  example_constants_def example_generator_def
  ebind_def od_keys_def od_values_def ext_pairs_def
  build_routing_table_def internal_routing_def internal_enzyme_sets_def
  build_membrane_eic_def enumerate_ports_def
  organelle_ids_def c_external_enzyme_sets_def e_external_enzyme_sets_def
  Let_def

lemma example_generator_ok: "\<not> isl (example_generator gsize)"
  by (simp add: example_defs range_up.simps)

lemma ModelGenerator_init_fields:
  assumes "ModelGenerator_init K C P e_id p_id c_id gsize = Inr self"
  shows "groups_size self = gsize" and "the_coder self = C" and "the_parser self = P"
    and "ModelStructure_init K p_id P [OUTER K, INNER K, TRANS K] [] = Inr (periplasm self)"
    and "ModelStructure_init K e_id P [] (e_external_enzyme_sets K p_id) = Inr (extra_cellular self)"
    and "ModelStructure_init K c_id P [] (c_external_enzyme_sets K P [e_id, p_id, c_id] p_id)
           = Inr (cytoplasm self)"
    and "build_organelles K P (organelle_ids P [e_id, p_id, c_id]) [] = Inr (organelles self)"
  using assms by (auto simp: ModelGenerator_init_def ebind_def Let_def split: sum.splits)

lemma group_loop_ids:
  "group_loop cid esn groups (port, ids, rt, w) = (port', ids', rt', w') \<Longrightarrow>
   ids' = ids @ map od_keys groups \<and> port' = port + int (length groups)"
proof (induction groups arbitrary: port ids rt w)
  case Nil
  then show ?case by simp
next
  case (Cons g groups)
  from Cons.prems Cons.IH show ?case
    by (simp add: Let_def) fastforce
qed

lemma generate_enzyme_set_chunks:
  assumes "chunks enzyme_set (groups_size self) = Inr gs"
  shows "\<exists>w'. generate_enzyme_set self w cid esn enzyme_set =
           Inr (w', write_enzyme_set (the_coder self) cid esn (map od_keys gs))"
proof -
  obtain port' ids' rt' w' where
    g: "group_loop cid esn gs (0, [], [], w) = (port', ids', rt', w')"
    by (cases "group_loop cid esn gs (0, [], [], w)") auto
  from group_loop_ids[OF g] have "ids' = map od_keys gs" by simp
  then show ?thesis
    using assms g by (simp add: generate_enzyme_set_def ebind_def Let_def)
qed

lemma over_square:
  assumes "0 < (s::int)" and "s * s < n"
  shows "s < (n + s - 1) div s"
proof -
  have "s * (s + 1) \<le> n + s - 1" using assms by (simp add: algebra_simps)
  then have "(s * (s + 1)) div s \<le> (n + s - 1) div s" by (rule zdiv_mono1) (rule assms(1))
  moreover have "(s * (s + 1)) div s = s + 1" using assms(1) by simp
  ultimately show ?thesis by linarith
qed

text \<open>
  Claim C3, as amended. \<open>generate_enzyme_set\<close> checks no ceiling on the number of
  enzymes: for every positive \<open>groups_size\<close> that \<^verbatim>\<open>islice\<close> accepts (not above
  \<open>sys.maxsize\<close>) and every enzyme dictionary it raises no error and hands
  \<open>\<lceil>n / groups_size\<rceil>\<close> groups to the code writer, which are more than \<open>groups_size\<close>
  groups when the set has more than \<open>groups_size \<times> groups_size\<close> enzymes.
\<close>

theorem generate_enzyme_set_no_limit:
  assumes size: "0 < groups_size self" and bound: "groups_size self \<le> sys_maxsize"
      and dict: "distinct (od_keys enzyme_set)"
  shows "\<exists>w' gs. generate_enzyme_set self w cid esn enzyme_set =
             Inr (w', write_enzyme_set (the_coder self) cid esn (map od_keys gs)) \<and>
           concat gs = enzyme_set \<and>
           int (length gs) = \<lceil>real (length enzyme_set) / real_of_int (groups_size self)\<rceil> \<and>
           (groups_size self * groups_size self < int (length enzyme_set) \<longrightarrow>
              groups_size self < int (length gs))"
proof -
  have d: "distinct (map fst enzyme_set)" using dict by (simp add: od_keys_def)
  from chunks_whole[OF size bound d] obtain gs where
    run: "chunks enzyme_set (groups_size self) = Inr gs" and
    len: "int (length gs) = (int (length enzyme_set) + groups_size self - 1) div groups_size self" and
    whole: "concat gs = enzyme_set"
    by blast
  from generate_enzyme_set_chunks[OF run] obtain w' where
    r: "generate_enzyme_set self w cid esn enzyme_set =
          Inr (w', write_enzyme_set (the_coder self) cid esn (map od_keys gs))"
    by blast
  have cnt: "int (length gs) = \<lceil>real (length enzyme_set) / real_of_int (groups_size self)\<rceil>"
    using ceil_div[OF size, of "int (length enzyme_set)"] len by simp
  have "groups_size self * groups_size self < int (length enzyme_set) \<longrightarrow>
        groups_size self < int (length gs)"
    unfolding len using over_square[OF size] by blast
  with r whole cnt show ?thesis by blast
qed

theorem generate_enzyme_set_no_limit_witness:
  "\<exists>self w' gs. example_generator 2 = Inr self \<and>
      generate_enzyme_set self [] ''c'' ''bulk'' five_enzymes =
        Inr (w', write_enzyme_set (the_coder self) ''c'' ''bulk'' (map od_keys gs)) \<and>
      concat gs = five_enzymes \<and> groups_size self < int (length gs)"
proof -
  obtain self where self: "example_generator 2 = Inr self"
    using example_generator_ok[of 2] by (cases "example_generator 2") simp_all
  have g: "groups_size self = 2"
    using self ModelGenerator_init_fields(1) by (simp add: example_generator_def)
  have h1: "0 < groups_size self" using g by simp
  have hb: "groups_size self \<le> sys_maxsize" using g by (simp add: sys_maxsize_def)
  have h2: "distinct (od_keys five_enzymes)" by (simp add: od_keys_def five_enzymes_def)
  have big: "groups_size self * groups_size self < int (length five_enzymes)"
    using g by (simp add: five_enzymes_def)
  from generate_enzyme_set_no_limit[OF h1 hb h2, of "[]" "''c''" "''bulk''"] big self
  show ?thesis by blast
qed

text \<open>
  The claim as stated fails: with groups of two, a set of five enzymes (more than
  \<open>2 \<times> 2\<close>) is generated without any error, in three groups.
\<close>

theorem generate_enzyme_set_no_limit_counterexample:
  "2 * 2 < int (length five_enzymes) \<and>
   example_enzyme_set_run =
     Inr ([Router ''c_bulk_0'' [(''E1'', 0), (''E2'', 1)],
           Router ''c_bulk_1'' [(''E3'', 0), (''E4'', 1)],
           Router ''c_bulk_2'' [(''E5'', 0)],
           Router ''c_bulk'' [(''E1'', 0), (''E2'', 0), (''E3'', 1), (''E4'', 1), (''E5'', 2)]],
          (''c_bulk'', (), 3))"
  by (simp add: example_enzyme_set_run_def example_defs five_enzymes_def
        generate_enzyme_set_def chunks_def py_range_def islice_def sys_maxsize_def
        str_def str_nat.simps digit_char_def range_up.simps)

section \<open>Keys of the tables\<close>

lemma od_set_keys: "fst ` set (od_set k v d) = insert k (fst ` set d)"
proof (induction d)
  case Nil
  show ?case by simp
next
  case (Cons x d)
  obtain k' v' where x: "x = (k', v')" by (cases x)
  show ?case
  proof (cases "k' = k")
    case True
    then show ?thesis by (simp add: x)
  next
    case False
    then show ?thesis using Cons.IH by (simp add: x insert_commute)
  qed
qed

lemma od_set_nonempty: "od_set k v d \<noteq> []"
  by (cases d) (auto split: if_splits)

lemma od_set_hd: "d \<noteq> [] \<Longrightarrow> fst (hd (od_set k v d)) = fst (hd d)"
  by (cases d) (auto split: if_splits)

lemma od_update_keys: "fst ` set (od_update d kvs) = fst ` set d \<union> fst ` set kvs"
proof (induction kvs arbitrary: d)
  case Nil
  show ?case by simp
next
  case (Cons x kvs)
  obtain k v where x: "x = (k, v)" by (cases x)
  have "fst ` set (od_update (od_set k v d) kvs) = fst ` set (od_set k v d) \<union> fst ` set kvs"
    by (rule Cons.IH)
  then show ?case by (simp add: x od_set_keys)
qed

lemma od_get_in_keys: "k \<in> fst ` set d \<Longrightarrow> \<exists>v. od_get d k = Inr v"
proof (induction d)
  case Nil
  then show ?case by simp
next
  case (Cons x d)
  obtain k' v' where x: "x = (k', v')" by (cases x)
  show ?case
  proof (cases "k' = k")
    case True
    then show ?thesis by (simp add: x)
  next
    case False
    then have "k \<in> fst ` set d" using Cons.prems by (simp add: x)
    then show ?thesis using Cons.IH False by (simp add: x)
  qed
qed

lemma od_get_Inr_mem: "od_get d k = Inr v \<Longrightarrow> (k, v) \<in> set d"
  by (induction d) (auto split: if_splits)

lemma od_get_Inl: "od_get d k = Inl e \<Longrightarrow> e = KeyError"
  by (induction d) (auto split: if_splits)

lemma od_get_Inl_keys: "od_get d k = Inl e \<Longrightarrow> k \<notin> fst ` set d"
  using od_get_in_keys[of k d] by auto

lemma add_reaction_sets_keys:
  "fst ` set (fst (add_reaction_sets c rss (rt, pn))) = fst ` set rt \<union> Pair c ` set rss"
proof (induction rss arbitrary: rt pn)
  case Nil
  show ?case by simp
next
  case (Cons r rss)
  have "fst ` set (fst (add_reaction_sets c rss (od_set (c, r) pn rt, pn + 1))) =
      fst ` set (od_set (c, r) pn rt) \<union> Pair c ` set rss"
    by (rule Cons.IH)
  then show ?case by (simp add: od_set_keys)
qed

lemma add_external_keys:
  "fst ` set (fst (add_external ext (rt, pn))) = fst ` set rt \<union> set (ext_pairs ext)"
proof (induction ext arbitrary: rt pn)
  case Nil
  show ?case by (simp add: ext_pairs_def)
next
  case (Cons x ext)
  obtain c rss where x: "x = (c, rss)" by (cases x)
  obtain rt1 pn1 where s: "add_reaction_sets c rss (rt, pn) = (rt1, pn1)"
    by (cases "add_reaction_sets c rss (rt, pn)")
  have k1: "fst ` set rt1 = fst ` set rt \<union> Pair c ` set rss"
    using add_reaction_sets_keys[of c rss rt pn] s by simp
  have "fst ` set (fst (add_external ext (rt1, pn1))) = fst ` set rt1 \<union> set (ext_pairs ext)"
    by (rule Cons.IH)
  then show ?case
    unfolding k1 by (simp add: x s ext_pairs_def Un_assoc)
qed

lemma enumerate_ports_keys: "fst ` set (enumerate_ports xs) = set xs"
  by (simp add: enumerate_ports_eq set_map[symmetric] map_fst_zip del: set_map)

lemma internal_routing_keys: "fst ` set (internal_routing cid ies) = Pair cid ` set ies"
proof -
  have "fst ` set (map (\<lambda>(esn, port). ((cid, esn), port)) (enumerate_ports ies))
      = Pair cid ` fst ` set (enumerate_ports ies)"
    by (force simp: image_iff)
  then show ?thesis
    by (simp add: internal_routing_def od_update_keys enumerate_ports_keys)
qed

lemma build_routing_table_keys:
  "fst ` set (build_routing_table K cid membranes ext) =
     Pair cid ` set (BULK K # membranes) \<union> set (ext_pairs ext)"
  by (simp add: build_routing_table_def Let_def add_external_keys internal_routing_keys
      internal_enzyme_sets_def)

section \<open>The generated enzyme sets of a structure\<close>

lemma build_enzyme_sets_hd:
  "acc \<noteq> [] \<Longrightarrow> build_enzyme_sets P cid ies acc \<noteq> [] \<and>
     fst (hd (build_enzyme_sets P cid ies acc)) = fst (hd acc)"
  by (induction ies arbitrary: acc) (simp_all add: od_set_nonempty od_set_hd)

lemma build_enzyme_sets_keys:
  "fst ` set (build_enzyme_sets P cid ies acc) = fst ` set acc \<union> set ies"
  by (induction ies arbitrary: acc) (auto simp: od_set_keys)

lemma enzyme_sets_first:
  "\<exists>v rest. build_enzyme_sets P cid (internal_enzyme_sets K membranes) [] = (BULK K, v) # rest"
proof -
  let ?d = "build_enzyme_sets P cid membranes [(BULK K, get_enzyme_set P cid (BULK K))]"
  have "?d \<noteq> [] \<and> fst (hd ?d) = BULK K"
    using build_enzyme_sets_hd[of "[(BULK K, get_enzyme_set P cid (BULK K))]" P cid membranes]
    by simp
  then obtain x rest where "?d = x # rest" "fst x = BULK K" by (cases ?d) auto
  then show ?thesis by (cases x) (auto simp: internal_enzyme_sets_def)
qed

lemma enzyme_sets_loop_hd:
  "enzyme_sets_loop self cid items w acc = Inr (w', es) \<Longrightarrow> acc \<noteq> [] \<Longrightarrow>
     es \<noteq> [] \<and> fst (hd es) = fst (hd acc)"
proof (induction items arbitrary: w acc)
  case Nil
  then show ?case by simp
next
  case (Cons it items)
  obtain esn enzyme_set where it: "it = (esn, enzyme_set)" by (cases it)
  from Cons.prems(1) it obtain w1 r where
    one: "generate_enzyme_set self w cid esn enzyme_set = Inr (w1, r)" and
    rest: "enzyme_sets_loop self cid items w1 (od_set (cid, esn) r acc) = Inr (w', es)"
    by (auto simp: ebind_def split: sum.splits)
  from Cons.IH[OF rest] Cons.prems(2) show ?case
    by (simp add: od_set_nonempty od_set_hd)
qed

lemma enzyme_sets_loop_keys:
  "enzyme_sets_loop self cid items w acc = Inr (w', es) \<Longrightarrow>
     fst ` set es = fst ` set acc \<union> Pair cid ` fst ` set items"
proof (induction items arbitrary: w acc)
  case Nil
  then show ?case by simp
next
  case (Cons it items)
  obtain esn enzyme_set where it: "it = (esn, enzyme_set)" by (cases it)
  from Cons.prems(1) it obtain w1 r where
    one: "generate_enzyme_set self w cid esn enzyme_set = Inr (w1, r)" and
    rest: "enzyme_sets_loop self cid items w1 (od_set (cid, esn) r acc) = Inr (w', es)"
    by (auto simp: ebind_def split: sum.splits)
  from Cons.IH[OF rest] show ?case
    by (auto simp: od_set_keys it)
qed

lemma generate_enzyme_sets_first:
  assumes built: "ModelStructure_init K cid P membranes ext = Inr c"
      and sets: "generate_enzyme_sets self w c = Inr (w1, es)"
  shows "\<exists>m rest. es = ((cid, BULK K), m) # rest"
proof -
  have idc: "id' c = cid"
    and esc: "enzyme_sets c = build_enzyme_sets P cid (internal_enzyme_sets K membranes) []"
    using ModelStructure_init_fields[OF built] by simp_all
  from enzyme_sets_first[of P cid K membranes] obtain v rest where
    items: "enzyme_sets c = (BULK K, v) # rest" unfolding esc by blast
  from sets have loop: "enzyme_sets_loop self cid ((BULK K, v) # rest) w [] = Inr (w1, es)"
    by (simp add: generate_enzyme_sets_def idc items)
  then obtain w0 r where
    rest: "enzyme_sets_loop self cid rest w0 [((cid, BULK K), r)] = Inr (w1, es)"
    by (auto simp: ebind_def split: sum.splits)
  from enzyme_sets_loop_hd[OF rest] have "es \<noteq> []" "fst (hd es) = (cid, BULK K)" by simp_all
  then show ?thesis by (cases es) auto
qed

section \<open>generate_bulk_compartment asserts a single reaction set\<close>

lemma py_max_nonempty: "vs \<noteq> [] \<Longrightarrow> \<exists>m. py_max vs = Inr m"
  by (cases vs) (simp_all add: py_max_def)

lemma bulk_descriptor_fail:
  assumes sets: "generate_enzyme_sets self w c = Inr (w1, es)" and "length es \<noteq> 1"
  shows "bulk_descriptor K self w c = Inl AssertionError"
  using assms by (simp add: bulk_descriptor_def Let_def ebind_def)

lemma generate_bulk_fail:
  assumes sets: "generate_enzyme_sets self w c = Inr (w1, es)" and "length es \<noteq> 1"
  shows "generate_bulk_compartment K self w c = Inl AssertionError"
  using bulk_descriptor_fail[OF assms] by (simp add: generate_bulk_compartment_def ebind_def)

lemma single_bulk_model:
  assumes built: "ModelStructure_init K cid P membranes ext = Inr c"
      and sets: "generate_enzyme_sets self w c = Inr (w1, es)"
      and one: "length es = 1"
  shows "\<exists>m. es = [((cid, BULK K), m)]"
proof -
  from generate_enzyme_sets_first[OF built sets] obtain m rest where
    e: "es = ((cid, BULK K), m) # rest" by blast
  with one have "rest = []" by simp
  with e show ?thesis by blast
qed

lemma bulk_port_defined:
  assumes built: "ModelStructure_init K cid P membranes ext = Inr c"
  shows "\<exists>bp. od_get (routing_table c) (cid, BULK K) = Inr bp"
    and "\<exists>mx. py_max (od_values (routing_table c)) = Inr mx"
proof -
  have rtc: "routing_table c = build_routing_table K cid membranes ext"
    using ModelStructure_init_fields[OF built] by simp
  have key: "(cid, BULK K) \<in> fst ` set (routing_table c)"
    unfolding rtc build_routing_table_keys by simp
  then show "\<exists>bp. od_get (routing_table c) (cid, BULK K) = Inr bp"
    by (rule od_get_in_keys)
  from key have "routing_table c \<noteq> []" by auto
  then have "od_values (routing_table c) \<noteq> []" by (simp add: od_values_def)
  then show "\<exists>mx. py_max (od_values (routing_table c)) = Inr mx"
    by (rule py_max_nonempty)
qed


lemma bulk_descriptor_one:
  assumes built: "ModelStructure_init K cid P membranes ext = Inr c"
      and sets: "generate_enzyme_sets self w c = Inr (w1, es)"
      and one: "length es = 1"
  shows "\<exists>d. bulk_descriptor K self w c =
             Inr (w1 @ [Space cid (space_parameters c) (routing_table c)], d) \<and>
           model_name d = cid \<and> length (sub_models d) = 2"
proof -
  have idc: "id' c = cid" using ModelStructure_init_fields[OF built] by simp
  from single_bulk_model[OF built sets one] obtain m where es: "es = [((cid, BULK K), m)]"
    by blast
  have bulk: "od_get es (cid, BULK K) = Inr m" by (simp add: es)
  from bulk_port_defined[OF built] obtain bp mx where
    bp: "od_get (routing_table c) (cid, BULK K) = Inr bp" and
    mx: "py_max (od_values (routing_table c)) = Inr mx"
    by blast
  show ?thesis
    unfolding bulk_descriptor_def Let_def idc sets ebind_def
    by (simp add: one bulk mx bp split: prod.split)
qed

text \<open>
  Claim C4. For a compartment built by \<open>ModelStructure_init\<close> whose enzyme sets have been
  generated: when the generated mapping has exactly one entry, the assertion of
  \<open>generate_bulk_compartment\<close> passes and the coupled-model descriptor of the compartment
  (named after it, with the space and the bulk model as sub-models) is produced and handed
  to the code writer; for any other number of entries the method ends with
  \<open>AssertionError\<close> and produces no descriptor.
\<close>

theorem bulk_compartment_assertion:
  assumes built: "ModelStructure_init K cid P membranes ext = Inr c"
      and sets: "generate_enzyme_sets self w c = Inr (w1, es)"
  shows "(length es = 1 \<longrightarrow>
           (\<exists>d. bulk_descriptor K self w c =
                   Inr (w1 @ [Space cid (space_parameters c) (routing_table c)], d) \<and>
                model_name d = cid \<and> length (sub_models d) = 2 \<and>
                generate_bulk_compartment K self w c =
                   Inr (w1 @ [Space cid (space_parameters c) (routing_table c)],
                        write_coupled_model (the_coder self) d))) \<and>
         (length es \<noteq> 1 \<longrightarrow>
            bulk_descriptor K self w c = Inl AssertionError \<and>
            generate_bulk_compartment K self w c = Inl AssertionError)"
proof (intro conjI impI)
  assume one: "length es = 1"
  from bulk_descriptor_one[OF built sets one] obtain d where
    d: "bulk_descriptor K self w c =
          Inr (w1 @ [Space cid (space_parameters c) (routing_table c)], d)"
       "model_name d = cid" "length (sub_models d) = 2"
    by blast
  have "generate_bulk_compartment K self w c =
      Inr (w1 @ [Space cid (space_parameters c) (routing_table c)],
           write_coupled_model (the_coder self) d)"
    by (simp add: generate_bulk_compartment_def ebind_def d(1))
  with d show "\<exists>d. bulk_descriptor K self w c =
                   Inr (w1 @ [Space cid (space_parameters c) (routing_table c)], d) \<and>
                model_name d = cid \<and> length (sub_models d) = 2 \<and>
                generate_bulk_compartment K self w c =
                   Inr (w1 @ [Space cid (space_parameters c) (routing_table c)],
                        write_coupled_model (the_coder self) d)"
    by blast
next
  assume "length es \<noteq> 1"
  then show "bulk_descriptor K self w c = Inl AssertionError"
    by (rule bulk_descriptor_fail[OF sets])
next
  assume "length es \<noteq> 1"
  then show "generate_bulk_compartment K self w c = Inl AssertionError"
    by (rule generate_bulk_fail[OF sets])
qed

lemmas run_defs =
  generate_enzyme_sets_def generate_enzyme_set_def chunks_def py_range_def islice_def
  sys_maxsize_def
  ebind_def od_keys_def od_values_def Let_def enumerate_ports_def
  str_def str_nat.simps digit_char_def range_up.simps
  internal_enzyme_sets_def example_parser_def example_enzyme_set_def example_constants_def

lemma example_self:
  assumes "example_generator n = Inr self"
  shows "groups_size self = n" and "the_coder self = example_coder"
    and "id' (cytoplasm self) = ''c''" and "id' (periplasm self) = ''p''"
    and "enzyme_sets (cytoplasm self) = [(''bulk'', example_enzyme_set ''c'' ''bulk'')]"
    and "enzyme_sets (periplasm self) =
           [(''bulk'', example_enzyme_set ''p'' ''bulk''),
            (''outer'', example_enzyme_set ''p'' ''outer''),
            (''inner'', example_enzyme_set ''p'' ''inner''),
            (''trans'', example_enzyme_set ''p'' ''trans'')]"
proof -
  note g = assms[unfolded example_generator_def]
  show "groups_size self = n" "the_coder self = example_coder"
    using ModelGenerator_init_fields(1,2)[OF g] by simp_all
  note c = ModelGenerator_init_fields(6)[OF g]
  note p = ModelGenerator_init_fields(4)[OF g]
  show "id' (cytoplasm self) = ''c''" "id' (periplasm self) = ''p''"
    using ModelStructure_init_fields(1)[OF c] ModelStructure_init_fields(1)[OF p] by simp_all
  show "enzyme_sets (cytoplasm self) = [(''bulk'', example_enzyme_set ''c'' ''bulk'')]"
    using ModelStructure_init_fields(4)[OF c]
    by (simp add: internal_enzyme_sets_def example_constants_def example_parser_def)
  show "enzyme_sets (periplasm self) =
           [(''bulk'', example_enzyme_set ''p'' ''bulk''),
            (''outer'', example_enzyme_set ''p'' ''outer''),
            (''inner'', example_enzyme_set ''p'' ''inner''),
            (''trans'', example_enzyme_set ''p'' ''trans'')]"
    using ModelStructure_init_fields(4)[OF p]
    by (simp add: internal_enzyme_sets_def example_constants_def example_parser_def)
qed

lemma example_sets_c:
  assumes "example_generator 2 = Inr self"
  shows "\<exists>w1. generate_enzyme_sets self [] (cytoplasm self) =
           Inr (w1, [((''c'', ''bulk''), (''c_bulk'', (), 3))])"
  by (simp add: run_defs example_self[OF assms] example_coder_def)

lemma example_sets_p:
  assumes "example_generator 2 = Inr self"
  shows "\<exists>w1. generate_enzyme_sets self [] (periplasm self) =
           Inr (w1, [((''p'', ''bulk''), (''p_bulk'', (), 3)),
                     ((''p'', ''outer''), (''p_outer'', (), 3)),
                     ((''p'', ''inner''), (''p_inner'', (), 3)),
                     ((''p'', ''trans''), (''p_trans'', (), 3))])"
  by (simp add: run_defs example_self[OF assms] example_coder_def)

theorem bulk_compartment_assertion_witness:
  "\<exists>self w1 es d. example_generator 2 = Inr self \<and>
     generate_enzyme_sets self [] (cytoplasm self) = Inr (w1, es) \<and> length es = 1 \<and>
     generate_bulk_compartment example_constants self [] (cytoplasm self) =
       Inr (w1 @ [Space ''c'' (space_parameters (cytoplasm self)) (routing_table (cytoplasm self))],
            write_coupled_model (the_coder self) d) \<and>
     generate_bulk_compartment example_constants self [] (periplasm self) = Inl AssertionError"
proof -
  obtain self where self: "example_generator 2 = Inr self"
    using example_generator_ok[of 2] by (cases "example_generator 2") simp_all
  note g = self[unfolded example_generator_def]
  note c = ModelGenerator_init_fields(6)[OF g]
  note p = ModelGenerator_init_fields(4)[OF g]
  from example_sets_c[OF self] obtain w1 where
    sc: "generate_enzyme_sets self [] (cytoplasm self) =
           Inr (w1, [((''c'', ''bulk''), (''c_bulk'', (), 3))])"
    by blast
  from example_sets_p[OF self] obtain w1' where
    sp: "generate_enzyme_sets self [] (periplasm self) =
           Inr (w1', [((''p'', ''bulk''), (''p_bulk'', (), 3)),
                     ((''p'', ''outer''), (''p_outer'', (), 3)),
                     ((''p'', ''inner''), (''p_inner'', (), 3)),
                     ((''p'', ''trans''), (''p_trans'', (), 3))])"
    by blast
  from bulk_compartment_assertion[OF c sc] obtain d where
    d: "generate_bulk_compartment example_constants self [] (cytoplasm self) =
       Inr (w1 @ [Space ''c'' (space_parameters (cytoplasm self)) (routing_table (cytoplasm self))],
            write_coupled_model (the_coder self) d)"
    by auto
  from bulk_compartment_assertion[OF p sp] have
    f: "generate_bulk_compartment example_constants self [] (periplasm self) = Inl AssertionError"
    by simp
  from self sc d f show ?thesis by (intro exI conjI) (assumption, assumption, simp_all)
qed


section \<open>The organelle compartment\<close>

subsection \<open>The internal coupling and its assertion\<close>

lemma ball_fst_Cons:
  "(\<forall>k\<in>fst ` set (x # rt). P k) \<longleftrightarrow> P (fst x) \<and> (\<forall>k\<in>fst ` set rt. P k)"
  by simp

lemma length_ic_edges: "length (ic_edges space n p) = 3"
  by (simp add: ic_edges_def)

lemma ic_for_Cons:
  "od_get es k = Inr m \<Longrightarrow>
   ic_for space es ((k, p) # rt) = ic_edges space (fst m) p @ ic_for space es rt"
  by (simp add: ic_for_def)

lemma organelle_ic_step:
  "fst k = cid \<Longrightarrow> od_get es k = Inr m \<Longrightarrow>
   organelle_ic space cid es ((k, p) # rt) acc =
   organelle_ic space cid es rt (acc @ ic_edges space (fst m) p)"
  by (simp add: ebind_def)

lemma organelle_ic_foreign:
  "fst k \<noteq> cid \<Longrightarrow> organelle_ic space cid es ((k, p) # rt) acc = Inl AssertionError"
  by simp

lemma organelle_ic_missing:
  "fst k = cid \<Longrightarrow> od_get es k = Inl e \<Longrightarrow>
   organelle_ic space cid es ((k, p) # rt) acc = Inl KeyError"
  using od_get_Inl[of es k e] by (simp add: ebind_def)

lemma organelle_ic_complete:
  "(\<forall>k\<in>fst ` set rt. fst k = cid \<and> k \<in> fst ` set es) \<Longrightarrow>
   organelle_ic space cid es rt acc = Inr (acc @ ic_for space es rt)"
proof (induction rt arbitrary: acc)
  case Nil
  show ?case by (simp add: ic_for_def)
next
  case (Cons x rt)
  obtain k p where x: "x = (k, p)" by (cases x)
  have both: "(fst (fst x) = cid \<and> fst x \<in> fst ` set es) \<and>
      (\<forall>k\<in>fst ` set rt. fst k = cid \<and> k \<in> fst ` set es)"
    by (rule iffD1[OF ball_fst_Cons Cons.prems])
  from conjunct1[OF both] have own: "fst k = cid" and mem: "k \<in> fst ` set es"
    by (simp_all add: x)
  note tl = conjunct2[OF both]
  from od_get_in_keys[OF mem] obtain m where m: "od_get es k = Inr m" ..
  have "organelle_ic space cid es (x # rt) acc =
      Inr ((acc @ ic_edges space (fst m) p) @ ic_for space es rt)"
    unfolding x organelle_ic_step[OF own m] by (rule Cons.IH[OF tl])
  then show ?case by (simp only: x ic_for_Cons[OF m] append_assoc)
qed

lemma organelle_ic_assert:
  "(\<forall>a\<in>fst ` set pre. fst a = cid \<and> a \<in> fst ` set es) \<Longrightarrow> fst k \<noteq> cid \<Longrightarrow>
   organelle_ic space cid es (pre @ (k, p) # post) acc = Inl AssertionError"
proof (induction pre arbitrary: acc)
  case Nil
  show ?case unfolding append_Nil by (rule organelle_ic_foreign[OF Nil.prems(2)])
next
  case (Cons x pre)
  obtain k' p' where x: "x = (k', p')" by (cases x)
  have both: "(fst (fst x) = cid \<and> fst x \<in> fst ` set es) \<and>
      (\<forall>a\<in>fst ` set pre. fst a = cid \<and> a \<in> fst ` set es)"
    by (rule iffD1[OF ball_fst_Cons Cons.prems(1)])
  from conjunct1[OF both] have own: "fst k' = cid" and mem: "k' \<in> fst ` set es"
    by (simp_all add: x)
  note tl = conjunct2[OF both]
  from od_get_in_keys[OF mem] obtain m where m: "od_get es k' = Inr m" ..
  show ?case
    unfolding x append_Cons organelle_ic_step[OF own m]
    by (rule Cons.IH[OF tl Cons.prems(2)])
qed

lemma organelle_ic_keyerror:
  "(\<forall>a\<in>fst ` set pre. fst a = cid \<and> a \<in> fst ` set es) \<Longrightarrow> fst k = cid \<Longrightarrow>
   k \<notin> fst ` set es \<Longrightarrow>
   organelle_ic space cid es (pre @ (k, p) # post) acc = Inl KeyError"
proof (induction pre arbitrary: acc)
  case Nil
  obtain e where e: "od_get es k = Inl e"
  proof (cases "od_get es k")
    case (Inl e)
    then show ?thesis by (rule that)
  next
    case (Inr m)
    from od_get_Inr_mem[OF Inr] have "fst (k, m) \<in> fst ` set es" by (rule imageI)
    with Nil.prems(3) show ?thesis by simp
  qed
  show ?case unfolding append_Nil by (rule organelle_ic_missing[OF Nil.prems(2) e])
next
  case (Cons x pre)
  obtain k' p' where x: "x = (k', p')" by (cases x)
  have both: "(fst (fst x) = cid \<and> fst x \<in> fst ` set es) \<and>
      (\<forall>a\<in>fst ` set pre. fst a = cid \<and> a \<in> fst ` set es)"
    by (rule iffD1[OF ball_fst_Cons Cons.prems(1)])
  from conjunct1[OF both] have own: "fst k' = cid" and mem: "k' \<in> fst ` set es"
    by (simp_all add: x)
  note tl = conjunct2[OF both]
  from od_get_in_keys[OF mem] obtain m where m: "od_get es k' = Inr m" ..
  show ?case
    unfolding x append_Cons organelle_ic_step[OF own m]
    by (rule Cons.IH[OF tl Cons.prems(2) Cons.prems(3)])
qed

lemma od_get_map_of: "od_get d k = Inr v \<Longrightarrow> map_of d k = Some v"
proof (induction d)
  case Nil
  then show ?case by simp
next
  case (Cons x d)
  obtain k' v' where x: "x = (k', v')" by (cases x)
  show ?case
  proof (cases "k' = k")
    case True
    with Cons.prems show ?thesis by (simp add: x)
  next
    case False
    with Cons.prems have "od_get d k = Inr v" by (simp add: x)
    from Cons.IH[OF this] False show ?thesis by (simp add: x)
  qed
qed

lemma ic_for_explicit:
  "(\<forall>k\<in>fst ` set rt. \<exists>m. od_get es k = Inr m) \<Longrightarrow>
   ic_for space es rt =
     concat (map (\<lambda>(k, p).
        [[PStr space, PStr (''pmgbp::structs::'' @ space @ ''::'' @ space), PInt p,
          PStr (fst (the (map_of es k))), PStr ''pmgbp::models::enzyme'', PInt 0],
         [PStr (fst (the (map_of es k))), PStr ''pmgbp::models::enzyme'', PStr ''0_product'',
          PStr space, PStr (''pmgbp::structs::'' @ space @ ''::'' @ space), PStr ''0_product''],
         [PStr (fst (the (map_of es k))), PStr ''pmgbp::models::enzyme'',
          PStr ''0_information'',
          PStr space, PStr (''pmgbp::structs::'' @ space @ ''::'' @ space),
          PStr ''0_information'']]) rt)"
proof (induction rt)
  case Nil
  show ?case by (simp add: ic_for_def)
next
  case (Cons x rt)
  obtain k p where x: "x = (k, p)" by (cases x)
  have both: "(\<exists>m. od_get es (fst x) = Inr m) \<and> (\<forall>k\<in>fst ` set rt. \<exists>m. od_get es k = Inr m)"
    by (rule iffD1[OF ball_fst_Cons Cons.prems])
  from conjunct1[OF both] obtain m where m: "od_get es k = Inr m" by (auto simp: x)
  note ih = Cons.IH[OF conjunct2[OF both]]
  show ?case
    unfolding x ic_for_Cons[OF m] ih
    by (simp add: od_get_map_of[OF m] ic_edges_def space_struct_def enzyme_model_def)
qed

lemma organelle_ic_not_assert:
  "(\<forall>a\<in>fst ` set rt. fst a = cid) \<Longrightarrow>
   organelle_ic space cid es rt acc \<noteq> Inl AssertionError"
proof (induction rt arbitrary: acc)
  case Nil
  show ?case by simp
next
  case (Cons x rt)
  obtain k p where x: "x = (k, p)" by (cases x)
  have both: "fst (fst x) = cid \<and> (\<forall>a\<in>fst ` set rt. fst a = cid)"
    by (rule iffD1[OF ball_fst_Cons Cons.prems])
  from conjunct1[OF both] have own: "fst k = cid" by (simp add: x)
  note tl = conjunct2[OF both]
  show ?case
  proof (cases "od_get es k")
    case (Inl e)
    show ?thesis unfolding x organelle_ic_missing[OF own Inl] by simp
  next
    case (Inr m)
    show ?thesis unfolding x organelle_ic_step[OF own Inr] by (rule Cons.IH[OF tl])
  qed
qed

lemma organelle_ic_returns:
  "organelle_ic space cid es rt acc = Inr r \<Longrightarrow>
   r = acc @ ic_for space es rt \<and> length r = length acc + 3 * length rt \<and>
   (\<forall>k\<in>fst ` set rt. \<exists>m. od_get es k = Inr m)"
proof (induction rt arbitrary: acc)
  case Nil
  then show ?case by (simp add: ic_for_def)
next
  case (Cons x rt)
  obtain k p where x: "x = (k, p)" by (cases x)
  have own: "fst k = cid"
  proof (rule ccontr)
    assume "fst k \<noteq> cid"
    then have "organelle_ic space cid es (x # rt) acc = Inl AssertionError"
      unfolding x by (rule organelle_ic_foreign)
    with Cons.prems show False by simp
  qed
  show ?case
  proof (cases "od_get es k")
    case (Inl e')
    have "organelle_ic space cid es (x # rt) acc = Inl KeyError"
      unfolding x by (rule organelle_ic_missing[OF own Inl])
    with Cons.prems show ?thesis by simp
  next
    case (Inr m)
    have rest: "organelle_ic space cid es rt (acc @ ic_edges space (fst m) p) = Inr r"
      using Cons.prems unfolding x organelle_ic_step[OF own Inr] .
    note ih = Cons.IH[OF rest]
    have "r = (acc @ ic_edges space (fst m) p) @ ic_for space es rt"
      using ih by (rule conjunct1)
    then have a: "r = acc @ ic_for space es (x # rt)"
      by (simp only: x ic_for_Cons[OF Inr] append_assoc)
    have "length r = length (acc @ ic_edges space (fst m) p) + 3 * length rt"
      using ih by (rule conjunct1[OF conjunct2])
    then have b: "length r = length acc + 3 * length (x # rt)"
      by (simp add: length_ic_edges)
    have tl: "\<forall>k\<in>fst ` set rt. \<exists>m. od_get es k = Inr m"
      using ih by (rule conjunct2[OF conjunct2])
    have hd: "\<exists>m. od_get es (fst x) = Inr m"
      unfolding x fst_conv by (rule exI[of _ m], rule Inr)
    have c: "\<forall>k\<in>fst ` set (x # rt). \<exists>m. od_get es k = Inr m"
      by (rule iffD2[OF ball_fst_Cons conjI[OF hd tl]])
    from a b c show ?thesis by (intro conjI)
  qed
qed

lemma organelle_eic_error:
  "organelle_eic K cid es ms st = Inl e \<Longrightarrow> e = KeyError"
proof (induction ms arbitrary: st)
  case Nil
  then show ?case by simp
next
  case (Cons x ms)
  obtain n p where x: "x = (n, p)" by (cases x)
  obtain ip ea where st: "st = (ip, ea)" by (cases st)
  show ?case
  proof (cases "od_get es (cid, n)")
    case (Inl e')
    from od_get_Inl[OF Inl] Cons.prems show ?thesis by (simp add: x st ebind_def Inl)
  next
    case (Inr m)
    from Cons.prems have "organelle_eic K cid es ms
       (ip @ [[PInt p, PStr (REACTANT_MESSAGE_TYPE K), PStr ''in'']],
        ea @ [[PStr (fst m), PStr enzyme_model, PInt 0, PInt p]]) = Inl e"
      by (simp add: x st ebind_def Inr)
    then show ?thesis by (rule Cons.IH)
  qed
qed

lemma organelle_eic_complete:
  "(\<forall>n\<in>fst ` set ms. (cid, n) \<in> fst ` set es) \<Longrightarrow>
   \<exists>r. organelle_eic K cid es ms st = Inr r"
proof (induction ms arbitrary: st)
  case Nil
  show ?case by simp
next
  case (Cons x ms)
  obtain n p where x: "x = (n, p)" by (cases x)
  obtain ip ea where st: "st = (ip, ea)" by (cases st)
  have both: "(cid, fst x) \<in> fst ` set es \<and> (\<forall>n\<in>fst ` set ms. (cid, n) \<in> fst ` set es)"
    by (rule iffD1[OF ball_fst_Cons Cons.prems])
  from conjunct1[OF both] have mem: "(cid, n) \<in> fst ` set es" by (simp add: x)
  note tl = conjunct2[OF both]
  from od_get_in_keys[OF mem] obtain m where m: "od_get es (cid, n) = Inr m" ..
  have "organelle_eic K cid es (x # ms) st = organelle_eic K cid es ms
       (ip @ [[PInt p, PStr (REACTANT_MESSAGE_TYPE K), PStr ''in'']],
        ea @ [[PStr (fst m), PStr enzyme_model, PInt 0, PInt p]])"
    by (simp add: x st ebind_def m)
  then show ?case using Cons.IH[OF tl] by simp
qed

lemma organelle_descriptor_sets:
  assumes "generate_enzyme_sets self w c = Inr (w1, es)"
  shows "organelle_descriptor K self w c =
     ebind (organelle_ic (space_atomic_model K self (id' c) (int (length es))) (id' c) es
              (routing_table c) []) (\<lambda>ic_list.
     ebind (organelle_eic K (id' c) es (membrane_eic c) ([], [])) (\<lambda>r.
     Inr (w1 @ [Space (id' c) (space_parameters c) (routing_table c)],
          \<lparr> model_name = id' c,
            sub_models = space_atomic_model K self (id' c) (int (length es)) #
                         map fst (od_values es),
            ports = fst (snd (organelle_eoc K (od_values es) ([], [], []))) @ fst r,
            eic = snd r,
            eoc = snd (snd (organelle_eoc K (od_values es) ([], [], []))),
            ic = ic_list \<rparr>)))"
  by (simp add: organelle_descriptor_def assms ebind_def Let_def split: prod.split sum.split)

lemma organelle_descriptor_error:
  assumes sets: "generate_enzyme_sets self w c = Inr (w1, es)"
      and ic: "organelle_ic (space_atomic_model K self (id' c) (int (length es))) (id' c) es
                 (routing_table c) [] = Inl e"
  shows "organelle_descriptor K self w c = Inl e"
  by (simp add: organelle_descriptor_sets[OF sets] ic ebind_def)

lemma organelle_descriptor_Inl:
  assumes sets: "generate_enzyme_sets self w c = Inr (w1, es)"
      and d: "organelle_descriptor K self w c = Inl e"
  shows "organelle_ic (space_atomic_model K self (id' c) (int (length es))) (id' c) es
           (routing_table c) [] = Inl e \<or> e = KeyError"
proof (cases "organelle_ic (space_atomic_model K self (id' c) (int (length es))) (id' c) es
           (routing_table c) []")
  case (Inl e')
  from organelle_descriptor_error[OF sets Inl] d have "e' = e" by simp
  with Inl show ?thesis by simp
next
  case (Inr r)
  show ?thesis
  proof (cases "organelle_eic K (id' c) es (membrane_eic c) ([], [])")
    case (Inl e')
    from d have "e' = e" by (simp add: organelle_descriptor_sets[OF sets] Inr Inl ebind_def)
    with organelle_eic_error[OF Inl] show ?thesis by simp
  next
    case Inr2: (Inr q)
    from d show ?thesis by (simp add: organelle_descriptor_sets[OF sets] Inr Inr2 ebind_def)
  qed
qed

lemma organelle_descriptor_Inr:
  assumes sets: "generate_enzyme_sets self w c = Inr (w1, es)"
      and d: "organelle_descriptor K self w c = Inr (w', d)"
  shows "organelle_ic (space_atomic_model K self (id' c) (int (length es))) (id' c) es
           (routing_table c) [] = Inr (ic d)"
proof (cases "organelle_ic (space_atomic_model K self (id' c) (int (length es))) (id' c) es
           (routing_table c) []")
  case (Inl e')
  from organelle_descriptor_error[OF sets Inl] d show ?thesis by simp
next
  case (Inr r)
  show ?thesis
  proof (cases "organelle_eic K (id' c) es (membrane_eic c) ([], [])")
    case (Inl e')
    from d show ?thesis by (simp add: organelle_descriptor_sets[OF sets] Inr Inl ebind_def)
  next
    case Inr2: (Inr q)
    from d have "ic d = r"
      by (auto simp add: organelle_descriptor_sets[OF sets] Inr Inr2 ebind_def)
    with Inr show ?thesis by simp
  qed
qed

lemma organelle_descriptor_complete:
  assumes sets: "generate_enzyme_sets self w c = Inr (w1, es)"
      and ic: "organelle_ic (space_atomic_model K self (id' c) (int (length es))) (id' c) es
                 (routing_table c) [] = Inr r"
      and eic: "organelle_eic K (id' c) es (membrane_eic c) ([], []) = Inr q"
  shows "\<exists>d. organelle_descriptor K self w c =
           Inr (w1 @ [Space (id' c) (space_parameters c) (routing_table c)], d) \<and>
         model_name d = id' c \<and> ic d = r"
  by (simp add: organelle_descriptor_sets[OF sets] ic eic ebind_def)

lemma generate_organelle_Inl:
  "generate_organelle_compartment K self w c = Inl e \<longleftrightarrow>
   organelle_descriptor K self w c = Inl e"
  by (cases "organelle_descriptor K self w c")
     (simp_all add: generate_organelle_compartment_def ebind_def split: prod.split)

lemma generate_organelle_Inr:
  "organelle_descriptor K self w c = Inr (w', d) \<Longrightarrow>
   generate_organelle_compartment K self w c =
     Inr (w', write_coupled_model (the_coder self) d)"
  by (simp add: generate_organelle_compartment_def ebind_def)

lemma organelle_returned:
  assumes sets: "generate_enzyme_sets self w c = Inr (w1, es)"
      and space: "space = space_atomic_model K self (id' c) (int (length es))"
      and d: "organelle_descriptor K self w c = Inr (w', d)"
  shows "ic d = concat (map (\<lambda>(k, p).
        [[PStr space, PStr (''pmgbp::structs::'' @ space @ ''::'' @ space), PInt p,
          PStr (fst (the (map_of es k))), PStr ''pmgbp::models::enzyme'', PInt 0],
         [PStr (fst (the (map_of es k))), PStr ''pmgbp::models::enzyme'', PStr ''0_product'',
          PStr space, PStr (''pmgbp::structs::'' @ space @ ''::'' @ space), PStr ''0_product''],
         [PStr (fst (the (map_of es k))), PStr ''pmgbp::models::enzyme'',
          PStr ''0_information'',
          PStr space, PStr (''pmgbp::structs::'' @ space @ ''::'' @ space),
          PStr ''0_information'']]) (routing_table c))"
    and "length (ic d) = 3 * length (routing_table c)"
    and "\<forall>a\<in>fst ` set (routing_table c). a \<in> fst ` set es"
proof -
  note r = organelle_ic_returns[OF organelle_descriptor_Inr[OF sets d]]
  note res = conjunct2[OF conjunct2[OF r]]
  from conjunct1[OF r] have "ic d = ic_for space es (routing_table c)"
    by (simp add: space)
  then show "ic d = concat (map (\<lambda>(k, p).
        [[PStr space, PStr (''pmgbp::structs::'' @ space @ ''::'' @ space), PInt p,
          PStr (fst (the (map_of es k))), PStr ''pmgbp::models::enzyme'', PInt 0],
         [PStr (fst (the (map_of es k))), PStr ''pmgbp::models::enzyme'', PStr ''0_product'',
          PStr space, PStr (''pmgbp::structs::'' @ space @ ''::'' @ space), PStr ''0_product''],
         [PStr (fst (the (map_of es k))), PStr ''pmgbp::models::enzyme'',
          PStr ''0_information'',
          PStr space, PStr (''pmgbp::structs::'' @ space @ ''::'' @ space),
          PStr ''0_information'']]) (routing_table c))"
    by (simp only: ic_for_explicit[OF res])
  from conjunct1[OF conjunct2[OF r]]
  show "length (ic d) = 3 * length (routing_table c)" by simp
  show "\<forall>a\<in>fst ` set (routing_table c). a \<in> fst ` set es"
  proof
    fix a assume "a \<in> fst ` set (routing_table c)"
    from bspec[OF res this] obtain m where "od_get es a = Inr m" ..
    from od_get_Inr_mem[OF this] have "fst (a, m) \<in> fst ` set es" by (rule imageI)
    then show "a \<in> fst ` set es" by simp
  qed
qed

lemma organelle_built:
  assumes sets: "generate_enzyme_sets self w c = Inr (w1, es)"
      and space: "space = space_atomic_model K self (id' c) (int (length es))"
      and own: "\<forall>a\<in>fst ` set (routing_table c). fst a = id' c"
      and keys: "\<forall>a\<in>fst ` set (routing_table c). a \<in> fst ` set es"
      and membranes: "\<forall>n\<in>fst ` set (membrane_eic c). (id' c, n) \<in> fst ` set es"
  shows "\<exists>d. organelle_descriptor K self w c =
               Inr (w1 @ [Space (id' c) (space_parameters c) (routing_table c)], d) \<and>
             model_name d = id' c \<and>
             ic d = concat (map (\<lambda>(k, p).
        [[PStr space, PStr (''pmgbp::structs::'' @ space @ ''::'' @ space), PInt p,
          PStr (fst (the (map_of es k))), PStr ''pmgbp::models::enzyme'', PInt 0],
         [PStr (fst (the (map_of es k))), PStr ''pmgbp::models::enzyme'', PStr ''0_product'',
          PStr space, PStr (''pmgbp::structs::'' @ space @ ''::'' @ space), PStr ''0_product''],
         [PStr (fst (the (map_of es k))), PStr ''pmgbp::models::enzyme'',
          PStr ''0_information'',
          PStr space, PStr (''pmgbp::structs::'' @ space @ ''::'' @ space),
          PStr ''0_information'']]) (routing_table c)) \<and>
             generate_organelle_compartment K self w c =
               Inr (w1 @ [Space (id' c) (space_parameters c) (routing_table c)],
                    write_coupled_model (the_coder self) d)"
proof -
  have both: "\<forall>a\<in>fst ` set (routing_table c). fst a = id' c \<and> a \<in> fst ` set es"
  proof
    fix a assume a: "a \<in> fst ` set (routing_table c)"
    from bspec[OF own a] bspec[OF keys a]
    show "fst a = id' c \<and> a \<in> fst ` set es" by (rule conjI)
  qed
  have ic: "organelle_ic (space_atomic_model K self (id' c) (int (length es))) (id' c) es
              (routing_table c) [] =
            Inr ([] @ ic_for (space_atomic_model K self (id' c) (int (length es))) es
                        (routing_table c))"
    by (rule organelle_ic_complete[OF both])
  from organelle_eic_complete[OF membranes] obtain q where
    eic: "organelle_eic K (id' c) es (membrane_eic c) ([], []) = Inr q" ..
  from organelle_descriptor_complete[OF sets ic eic] obtain d where
    d: "organelle_descriptor K self w c =
           Inr (w1 @ [Space (id' c) (space_parameters c) (routing_table c)], d)"
       "model_name d = id' c"
    by blast
  note e = organelle_returned(1)[OF sets space d(1)]
  from d(1) d(2) e generate_organelle_Inr[OF d(1)] show ?thesis by blast
qed

text \<open>
  Claim C5, as amended. Let the enzyme sets of the compartment have been generated, and
  let \<open>space\<close> be the name the code writer gives the space model. The loop over the
  routing table stops at the first entry that is foreign or has no generated reaction set:
  when the entries before it are the compartment's own and present in the generated
  mapping, a key with another compartment id ends \<open>generate_organelle_compartment\<close> with
  \<open>AssertionError\<close>, and a key with the compartment's own id that is absent from the
  generated mapping ends it with \<open>KeyError\<close>. When every key of the routing table
  carries the compartment's own id, the method never ends with \<open>AssertionError\<close>; every
  descriptor it builds has as internal coupling, for each routing-table entry in the order
  of the table, the edge from port \<open>p\<close> of the space to port 0 of the entry's reaction
  set and the two edges from the reaction set's \<open>0_product\<close> and \<open>0_information\<close> ports
  back to the space, every key of the table being present in the generated mapping; and
  when the keys of the routing table and the membranes of \<open>membrane_eic\<close> are present in
  the generated mapping, the descriptor is built and handed to the code writer.
\<close>

theorem organelle_assertion:
  assumes sets: "generate_enzyme_sets self w c = Inr (w1, es)"
      and space: "space = write_space_atomic_model (the_coder self) (id' c) [id' c]
                            (int (length es)) 1 (PRODUCT_MESSAGE_TYPE K)
                            (REACTANT_MESSAGE_TYPE K) (INFORMATION_MESSAGE_TYPE K)"
  shows "(\<forall>pre k p post.
            routing_table c = pre @ (k, p) # post \<and>
            (\<forall>a\<in>fst ` set pre. fst a = id' c \<and> a \<in> fst ` set es) \<longrightarrow>
            (fst k \<noteq> id' c \<longrightarrow>
               generate_organelle_compartment K self w c = Inl AssertionError) \<and>
            (fst k = id' c \<and> k \<notin> fst ` set es \<longrightarrow>
               generate_organelle_compartment K self w c = Inl KeyError)) \<and>
         ((\<forall>a\<in>fst ` set (routing_table c). fst a = id' c) \<longrightarrow>
            generate_organelle_compartment K self w c \<noteq> Inl AssertionError \<and>
            (\<forall>w' d. organelle_descriptor K self w c = Inr (w', d) \<longrightarrow>
               ic d = concat (map (\<lambda>(k, p).
        [[PStr space, PStr (''pmgbp::structs::'' @ space @ ''::'' @ space), PInt p,
          PStr (fst (the (map_of es k))), PStr ''pmgbp::models::enzyme'', PInt 0],
         [PStr (fst (the (map_of es k))), PStr ''pmgbp::models::enzyme'', PStr ''0_product'',
          PStr space, PStr (''pmgbp::structs::'' @ space @ ''::'' @ space), PStr ''0_product''],
         [PStr (fst (the (map_of es k))), PStr ''pmgbp::models::enzyme'',
          PStr ''0_information'',
          PStr space, PStr (''pmgbp::structs::'' @ space @ ''::'' @ space),
          PStr ''0_information'']]) (routing_table c)) \<and>
               length (ic d) = 3 * length (routing_table c) \<and>
               (\<forall>a\<in>fst ` set (routing_table c). a \<in> fst ` set es)) \<and>
            ((\<forall>a\<in>fst ` set (routing_table c). a \<in> fst ` set es) \<and>
             (\<forall>n\<in>fst ` set (membrane_eic c). (id' c, n) \<in> fst ` set es) \<longrightarrow>
               (\<exists>d. organelle_descriptor K self w c =
                       Inr (w1 @ [Space (id' c) (space_parameters c) (routing_table c)], d) \<and>
                    model_name d = id' c \<and>
                    ic d = concat (map (\<lambda>(k, p).
        [[PStr space, PStr (''pmgbp::structs::'' @ space @ ''::'' @ space), PInt p,
          PStr (fst (the (map_of es k))), PStr ''pmgbp::models::enzyme'', PInt 0],
         [PStr (fst (the (map_of es k))), PStr ''pmgbp::models::enzyme'', PStr ''0_product'',
          PStr space, PStr (''pmgbp::structs::'' @ space @ ''::'' @ space), PStr ''0_product''],
         [PStr (fst (the (map_of es k))), PStr ''pmgbp::models::enzyme'',
          PStr ''0_information'',
          PStr space, PStr (''pmgbp::structs::'' @ space @ ''::'' @ space),
          PStr ''0_information'']]) (routing_table c)) \<and>
                    generate_organelle_compartment K self w c =
                       Inr (w1 @ [Space (id' c) (space_parameters c) (routing_table c)],
                            write_coupled_model (the_coder self) d))))"
proof -
  have sp: "space = space_atomic_model K self (id' c) (int (length es))"
    by (simp only: space space_atomic_model_def)
  have a: "generate_organelle_compartment K self w c = Inl AssertionError"
    if rt: "routing_table c = pre @ (k, p) # post"
    and pre: "\<forall>a\<in>fst ` set pre. fst a = id' c \<and> a \<in> fst ` set es"
    and k: "fst k \<noteq> id' c" for pre k p post
  proof -
    have "organelle_ic (space_atomic_model K self (id' c) (int (length es))) (id' c) es
            (routing_table c) [] = Inl AssertionError"
      unfolding rt by (rule organelle_ic_assert[OF pre k])
    from organelle_descriptor_error[OF sets this] show ?thesis
      by (simp only: generate_organelle_Inl)
  qed
  have b: "generate_organelle_compartment K self w c = Inl KeyError"
    if rt: "routing_table c = pre @ (k, p) # post"
    and pre: "\<forall>a\<in>fst ` set pre. fst a = id' c \<and> a \<in> fst ` set es"
    and k: "fst k = id' c" "k \<notin> fst ` set es" for pre k p post
  proof -
    have "organelle_ic (space_atomic_model K self (id' c) (int (length es))) (id' c) es
            (routing_table c) [] = Inl KeyError"
      unfolding rt by (rule organelle_ic_keyerror[OF pre k])
    from organelle_descriptor_error[OF sets this] show ?thesis
      by (simp only: generate_organelle_Inl)
  qed
  have first: "\<forall>pre k p post.
            routing_table c = pre @ (k, p) # post \<and>
            (\<forall>a\<in>fst ` set pre. fst a = id' c \<and> a \<in> fst ` set es) \<longrightarrow>
            (fst k \<noteq> id' c \<longrightarrow>
               generate_organelle_compartment K self w c = Inl AssertionError) \<and>
            (fst k = id' c \<and> k \<notin> fst ` set es \<longrightarrow>
               generate_organelle_compartment K self w c = Inl KeyError)"
  proof (intro allI impI conjI)
    fix pre k p post
    assume h: "routing_table c = pre @ (k, p) # post \<and>
            (\<forall>a\<in>fst ` set pre. fst a = id' c \<and> a \<in> fst ` set es)"
    assume "fst k \<noteq> id' c"
    from a[OF conjunct1[OF h] conjunct2[OF h] this]
    show "generate_organelle_compartment K self w c = Inl AssertionError" .
  next
    fix pre k p post
    assume h: "routing_table c = pre @ (k, p) # post \<and>
            (\<forall>a\<in>fst ` set pre. fst a = id' c \<and> a \<in> fst ` set es)"
    assume k: "fst k = id' c \<and> k \<notin> fst ` set es"
    from b[OF conjunct1[OF h] conjunct2[OF h] conjunct1[OF k] conjunct2[OF k]]
    show "generate_organelle_compartment K self w c = Inl KeyError" .
  qed
  have second: "generate_organelle_compartment K self w c \<noteq> Inl AssertionError"
    if own: "\<forall>a\<in>fst ` set (routing_table c). fst a = id' c"
  proof
    assume "generate_organelle_compartment K self w c = Inl AssertionError"
    then have "organelle_descriptor K self w c = Inl AssertionError"
      by (simp only: generate_organelle_Inl)
    from organelle_descriptor_Inl[OF sets this]
      organelle_ic_not_assert[OF own,
        where es = es and acc = "[]" and
              space = "space_atomic_model K self (id' c) (int (length es))"]
    show False by simp
  qed
  have third: "\<forall>w' d. organelle_descriptor K self w c = Inr (w', d) \<longrightarrow>
               ic d = concat (map (\<lambda>(k, p).
        [[PStr space, PStr (''pmgbp::structs::'' @ space @ ''::'' @ space), PInt p,
          PStr (fst (the (map_of es k))), PStr ''pmgbp::models::enzyme'', PInt 0],
         [PStr (fst (the (map_of es k))), PStr ''pmgbp::models::enzyme'', PStr ''0_product'',
          PStr space, PStr (''pmgbp::structs::'' @ space @ ''::'' @ space), PStr ''0_product''],
         [PStr (fst (the (map_of es k))), PStr ''pmgbp::models::enzyme'',
          PStr ''0_information'',
          PStr space, PStr (''pmgbp::structs::'' @ space @ ''::'' @ space),
          PStr ''0_information'']]) (routing_table c)) \<and>
               length (ic d) = 3 * length (routing_table c) \<and>
               (\<forall>a\<in>fst ` set (routing_table c). a \<in> fst ` set es)"
  proof (intro allI impI)
    fix w' d
    assume d: "organelle_descriptor K self w c = Inr (w', d)"
    note r = organelle_returned[OF sets sp d]
    from r(1) r(2) r(3)
    show "ic d = concat (map (\<lambda>(k, p).
        [[PStr space, PStr (''pmgbp::structs::'' @ space @ ''::'' @ space), PInt p,
          PStr (fst (the (map_of es k))), PStr ''pmgbp::models::enzyme'', PInt 0],
         [PStr (fst (the (map_of es k))), PStr ''pmgbp::models::enzyme'', PStr ''0_product'',
          PStr space, PStr (''pmgbp::structs::'' @ space @ ''::'' @ space), PStr ''0_product''],
         [PStr (fst (the (map_of es k))), PStr ''pmgbp::models::enzyme'',
          PStr ''0_information'',
          PStr space, PStr (''pmgbp::structs::'' @ space @ ''::'' @ space),
          PStr ''0_information'']]) (routing_table c)) \<and>
               length (ic d) = 3 * length (routing_table c) \<and>
               (\<forall>a\<in>fst ` set (routing_table c). a \<in> fst ` set es)"
      by (intro conjI)
  qed
  have fourth: "\<exists>d. organelle_descriptor K self w c =
                       Inr (w1 @ [Space (id' c) (space_parameters c) (routing_table c)], d) \<and>
                    model_name d = id' c \<and>
                    ic d = concat (map (\<lambda>(k, p).
        [[PStr space, PStr (''pmgbp::structs::'' @ space @ ''::'' @ space), PInt p,
          PStr (fst (the (map_of es k))), PStr ''pmgbp::models::enzyme'', PInt 0],
         [PStr (fst (the (map_of es k))), PStr ''pmgbp::models::enzyme'', PStr ''0_product'',
          PStr space, PStr (''pmgbp::structs::'' @ space @ ''::'' @ space), PStr ''0_product''],
         [PStr (fst (the (map_of es k))), PStr ''pmgbp::models::enzyme'',
          PStr ''0_information'',
          PStr space, PStr (''pmgbp::structs::'' @ space @ ''::'' @ space),
          PStr ''0_information'']]) (routing_table c)) \<and>
                    generate_organelle_compartment K self w c =
                       Inr (w1 @ [Space (id' c) (space_parameters c) (routing_table c)],
                            write_coupled_model (the_coder self) d)"
    if own: "\<forall>a\<in>fst ` set (routing_table c). fst a = id' c"
    and h: "(\<forall>a\<in>fst ` set (routing_table c). a \<in> fst ` set es) \<and>
             (\<forall>n\<in>fst ` set (membrane_eic c). (id' c, n) \<in> fst ` set es)"
    by (rule organelle_built[OF sets sp own conjunct1[OF h] conjunct2[OF h]])
  show ?thesis
  proof (intro conjI impI)
    show "\<forall>pre k p post.
            routing_table c = pre @ (k, p) # post \<and>
            (\<forall>a\<in>fst ` set pre. fst a = id' c \<and> a \<in> fst ` set es) \<longrightarrow>
            (fst k \<noteq> id' c \<longrightarrow>
               generate_organelle_compartment K self w c = Inl AssertionError) \<and>
            (fst k = id' c \<and> k \<notin> fst ` set es \<longrightarrow>
               generate_organelle_compartment K self w c = Inl KeyError)"
      by (rule first)
  next
    assume "\<forall>a\<in>fst ` set (routing_table c). fst a = id' c"
    then show "generate_organelle_compartment K self w c \<noteq> Inl AssertionError"
      by (rule second)
  next
    show "\<forall>w' d. organelle_descriptor K self w c = Inr (w', d) \<longrightarrow>
               ic d = concat (map (\<lambda>(k, p).
        [[PStr space, PStr (''pmgbp::structs::'' @ space @ ''::'' @ space), PInt p,
          PStr (fst (the (map_of es k))), PStr ''pmgbp::models::enzyme'', PInt 0],
         [PStr (fst (the (map_of es k))), PStr ''pmgbp::models::enzyme'', PStr ''0_product'',
          PStr space, PStr (''pmgbp::structs::'' @ space @ ''::'' @ space), PStr ''0_product''],
         [PStr (fst (the (map_of es k))), PStr ''pmgbp::models::enzyme'',
          PStr ''0_information'',
          PStr space, PStr (''pmgbp::structs::'' @ space @ ''::'' @ space),
          PStr ''0_information'']]) (routing_table c)) \<and>
               length (ic d) = 3 * length (routing_table c) \<and>
               (\<forall>a\<in>fst ` set (routing_table c). a \<in> fst ` set es)"
      by (rule third)
  next
    assume own: "\<forall>a\<in>fst ` set (routing_table c). fst a = id' c"
    assume h: "(\<forall>a\<in>fst ` set (routing_table c). a \<in> fst ` set es) \<and>
             (\<forall>n\<in>fst ` set (membrane_eic c). (id' c, n) \<in> fst ` set es)"
    show "\<exists>d. organelle_descriptor K self w c =
                       Inr (w1 @ [Space (id' c) (space_parameters c) (routing_table c)], d) \<and>
                    model_name d = id' c \<and>
                    ic d = concat (map (\<lambda>(k, p).
        [[PStr space, PStr (''pmgbp::structs::'' @ space @ ''::'' @ space), PInt p,
          PStr (fst (the (map_of es k))), PStr ''pmgbp::models::enzyme'', PInt 0],
         [PStr (fst (the (map_of es k))), PStr ''pmgbp::models::enzyme'', PStr ''0_product'',
          PStr space, PStr (''pmgbp::structs::'' @ space @ ''::'' @ space), PStr ''0_product''],
         [PStr (fst (the (map_of es k))), PStr ''pmgbp::models::enzyme'',
          PStr ''0_information'',
          PStr space, PStr (''pmgbp::structs::'' @ space @ ''::'' @ space),
          PStr ''0_information'']]) (routing_table c)) \<and>
                    generate_organelle_compartment K self w c =
                       Inr (w1 @ [Space (id' c) (space_parameters c) (routing_table c)],
                            write_coupled_model (the_coder self) d)"
      by (rule fourth[OF own h])
  qed
qed

lemma example_tables:
  assumes "example_generator n = Inr self"
  shows "routing_table (periplasm self) =
           [((''p'', ''bulk''), 0), ((''p'', ''outer''), 1),
            ((''p'', ''inner''), 2), ((''p'', ''trans''), 3)]"
    and "membrane_eic (periplasm self) = [(''outer'', 0), (''inner'', 1), (''trans'', 2)]"
    and "routing_table (cytoplasm self) =
           [((''c'', ''bulk''), 0), ((''o'', ''membrane''), 1),
            ((''p'', ''inner''), 2), ((''p'', ''trans''), 3)]"
    and "membrane_eic (cytoplasm self) = []"
    and "id' (extra_cellular self) = ''e''"
    and "routing_table (extra_cellular self) =
           [((''e'', ''bulk''), 0), ((''p'', ''outer''), 1), ((''p'', ''trans''), 2)]"
proof -
  note g = assms[unfolded example_generator_def]
  note p = ModelGenerator_init_fields(4)[OF g]
  note e = ModelGenerator_init_fields(5)[OF g]
  note c = ModelGenerator_init_fields(6)[OF g]
  note tbl = build_routing_table_def internal_routing_def internal_enzyme_sets_def
    build_membrane_eic_def enumerate_ports_def ext_pairs_def example_constants_def
    example_parser_def organelle_ids_def c_external_enzyme_sets_def e_external_enzyme_sets_def
  show "routing_table (periplasm self) =
           [((''p'', ''bulk''), 0), ((''p'', ''outer''), 1),
            ((''p'', ''inner''), 2), ((''p'', ''trans''), 3)]"
    unfolding ModelStructure_init_fields(2)[OF p] by (simp add: tbl range_up.simps)
  show "membrane_eic (periplasm self) = [(''outer'', 0), (''inner'', 1), (''trans'', 2)]"
    unfolding ModelStructure_init_fields(3)[OF p] by (simp add: tbl range_up.simps)
  show "routing_table (cytoplasm self) =
           [((''c'', ''bulk''), 0), ((''o'', ''membrane''), 1),
            ((''p'', ''inner''), 2), ((''p'', ''trans''), 3)]"
    unfolding ModelStructure_init_fields(2)[OF c] by (simp add: tbl range_up.simps)
  show "membrane_eic (cytoplasm self) = []"
    unfolding ModelStructure_init_fields(3)[OF c] by (simp add: tbl range_up.simps)
  show "id' (extra_cellular self) = ''e''"
    by (rule ModelStructure_init_fields(1)[OF e])
  show "routing_table (extra_cellular self) =
           [((''e'', ''bulk''), 0), ((''p'', ''outer''), 1), ((''p'', ''trans''), 2)]"
    unfolding ModelStructure_init_fields(2)[OF e] by (simp add: tbl range_up.simps)
qed

theorem organelle_assertion_witness:
  "\<exists>self. example_generator 2 = Inr self \<and>
     generate_organelle_compartment example_constants self [] (cytoplasm self) =
       Inl AssertionError \<and>
     (\<exists>w' d. generate_organelle_compartment example_constants self [] (periplasm self) =
               Inr (w', write_coupled_model (the_coder self) d) \<and>
             model_name d = ''p'' \<and>
             ic d =
               [[PStr ''p_space'', PStr ''pmgbp::structs::p_space::p_space'', PInt 0,
                 PStr ''p_bulk'', PStr ''pmgbp::models::enzyme'', PInt 0],
                [PStr ''p_bulk'', PStr ''pmgbp::models::enzyme'', PStr ''0_product'',
                 PStr ''p_space'', PStr ''pmgbp::structs::p_space::p_space'', PStr ''0_product''],
                [PStr ''p_bulk'', PStr ''pmgbp::models::enzyme'', PStr ''0_information'',
                 PStr ''p_space'', PStr ''pmgbp::structs::p_space::p_space'',
                 PStr ''0_information''],
                [PStr ''p_space'', PStr ''pmgbp::structs::p_space::p_space'', PInt 1,
                 PStr ''p_outer'', PStr ''pmgbp::models::enzyme'', PInt 0],
                [PStr ''p_outer'', PStr ''pmgbp::models::enzyme'', PStr ''0_product'',
                 PStr ''p_space'', PStr ''pmgbp::structs::p_space::p_space'', PStr ''0_product''],
                [PStr ''p_outer'', PStr ''pmgbp::models::enzyme'', PStr ''0_information'',
                 PStr ''p_space'', PStr ''pmgbp::structs::p_space::p_space'',
                 PStr ''0_information''],
                [PStr ''p_space'', PStr ''pmgbp::structs::p_space::p_space'', PInt 2,
                 PStr ''p_inner'', PStr ''pmgbp::models::enzyme'', PInt 0],
                [PStr ''p_inner'', PStr ''pmgbp::models::enzyme'', PStr ''0_product'',
                 PStr ''p_space'', PStr ''pmgbp::structs::p_space::p_space'', PStr ''0_product''],
                [PStr ''p_inner'', PStr ''pmgbp::models::enzyme'', PStr ''0_information'',
                 PStr ''p_space'', PStr ''pmgbp::structs::p_space::p_space'',
                 PStr ''0_information''],
                [PStr ''p_space'', PStr ''pmgbp::structs::p_space::p_space'', PInt 3,
                 PStr ''p_trans'', PStr ''pmgbp::models::enzyme'', PInt 0],
                [PStr ''p_trans'', PStr ''pmgbp::models::enzyme'', PStr ''0_product'',
                 PStr ''p_space'', PStr ''pmgbp::structs::p_space::p_space'', PStr ''0_product''],
                [PStr ''p_trans'', PStr ''pmgbp::models::enzyme'', PStr ''0_information'',
                 PStr ''p_space'', PStr ''pmgbp::structs::p_space::p_space'',
                 PStr ''0_information'']])"
proof -
  obtain self where self: "example_generator 2 = Inr self"
    using example_generator_ok[of 2] by (cases "example_generator 2") simp_all
  from example_sets_c[OF self] obtain w1 where
    sc: "generate_enzyme_sets self [] (cytoplasm self) =
           Inr (w1, [((''c'', ''bulk''), (''c_bulk'', (), 3))])"
    by blast
  from example_sets_p[OF self] obtain w1' where
    sp: "generate_enzyme_sets self [] (periplasm self) =
           Inr (w1', [((''p'', ''bulk''), (''p_bulk'', (), 3)),
                     ((''p'', ''outer''), (''p_outer'', (), 3)),
                     ((''p'', ''inner''), (''p_inner'', (), 3)),
                     ((''p'', ''trans''), (''p_trans'', (), 3))])"
    by blast
  note idc = example_self(3)[OF self]
  note idp = example_self(4)[OF self]
  note cdr = example_self(2)[OF self]
  note rtp = example_tables(1)[OF self]
  note mep = example_tables(2)[OF self]
  note rtc = example_tables(3)[OF self]
  note ac = conjunct1[OF organelle_assertion[OF sc refl, where K = example_constants]]
  have hc: "routing_table (cytoplasm self) =
       [((''c'', ''bulk''), 0)] @ ((''o'', ''membrane''), 1) #
       [((''p'', ''inner''), 2), ((''p'', ''trans''), 3)] \<and>
     (\<forall>a\<in>fst ` set [((''c'', ''bulk''), 0::int)].
         fst a = id' (cytoplasm self) \<and>
         a \<in> fst ` set [((''c'', ''bulk''), (''c_bulk'', (), 3::int))])"
    by (simp add: rtc idc)
  have fk: "fst (''o'', ''membrane'') \<noteq> id' (cytoplasm self)" by (simp add: idc)
  from mp[OF conjunct1[OF ac[rule_format, OF hc]] fk] have
    f: "generate_organelle_compartment example_constants self [] (cytoplasm self) =
          Inl AssertionError" .
  note ap = conjunct2[OF organelle_assertion[OF sp refl, where K = example_constants]]
  have own: "\<forall>a\<in>fst ` set (routing_table (periplasm self)). fst a = id' (periplasm self)"
    by (simp add: rtp idp)
  note ap' = conjunct2[OF conjunct2[OF mp[OF ap own]]]
  have res: "(\<forall>a\<in>fst ` set (routing_table (periplasm self)).
          a \<in> fst ` set [((''p'', ''bulk''), (''p_bulk'', (), 3::int)),
                     ((''p'', ''outer''), (''p_outer'', (), 3)),
                     ((''p'', ''inner''), (''p_inner'', (), 3)),
                     ((''p'', ''trans''), (''p_trans'', (), 3))]) \<and>
     (\<forall>n\<in>fst ` set (membrane_eic (periplasm self)).
          (id' (periplasm self), n) \<in> fst ` set [((''p'', ''bulk''), (''p_bulk'', (), 3::int)),
                     ((''p'', ''outer''), (''p_outer'', (), 3)),
                     ((''p'', ''inner''), (''p_inner'', (), 3)),
                     ((''p'', ''trans''), (''p_trans'', (), 3))])"
    by (simp add: rtp mep idp)
  from mp[OF ap' res] obtain d where
    d: "model_name d = ''p''"
       "ic d = [[PStr ''p_space'', PStr ''pmgbp::structs::p_space::p_space'', PInt 0,
                 PStr ''p_bulk'', PStr ''pmgbp::models::enzyme'', PInt 0],
                [PStr ''p_bulk'', PStr ''pmgbp::models::enzyme'', PStr ''0_product'',
                 PStr ''p_space'', PStr ''pmgbp::structs::p_space::p_space'', PStr ''0_product''],
                [PStr ''p_bulk'', PStr ''pmgbp::models::enzyme'', PStr ''0_information'',
                 PStr ''p_space'', PStr ''pmgbp::structs::p_space::p_space'',
                 PStr ''0_information''],
                [PStr ''p_space'', PStr ''pmgbp::structs::p_space::p_space'', PInt 1,
                 PStr ''p_outer'', PStr ''pmgbp::models::enzyme'', PInt 0],
                [PStr ''p_outer'', PStr ''pmgbp::models::enzyme'', PStr ''0_product'',
                 PStr ''p_space'', PStr ''pmgbp::structs::p_space::p_space'', PStr ''0_product''],
                [PStr ''p_outer'', PStr ''pmgbp::models::enzyme'', PStr ''0_information'',
                 PStr ''p_space'', PStr ''pmgbp::structs::p_space::p_space'',
                 PStr ''0_information''],
                [PStr ''p_space'', PStr ''pmgbp::structs::p_space::p_space'', PInt 2,
                 PStr ''p_inner'', PStr ''pmgbp::models::enzyme'', PInt 0],
                [PStr ''p_inner'', PStr ''pmgbp::models::enzyme'', PStr ''0_product'',
                 PStr ''p_space'', PStr ''pmgbp::structs::p_space::p_space'', PStr ''0_product''],
                [PStr ''p_inner'', PStr ''pmgbp::models::enzyme'', PStr ''0_information'',
                 PStr ''p_space'', PStr ''pmgbp::structs::p_space::p_space'',
                 PStr ''0_information''],
                [PStr ''p_space'', PStr ''pmgbp::structs::p_space::p_space'', PInt 3,
                 PStr ''p_trans'', PStr ''pmgbp::models::enzyme'', PInt 0],
                [PStr ''p_trans'', PStr ''pmgbp::models::enzyme'', PStr ''0_product'',
                 PStr ''p_space'', PStr ''pmgbp::structs::p_space::p_space'', PStr ''0_product''],
                [PStr ''p_trans'', PStr ''pmgbp::models::enzyme'', PStr ''0_information'',
                 PStr ''p_space'', PStr ''pmgbp::structs::p_space::p_space'',
                 PStr ''0_information'']]"
       "generate_organelle_compartment example_constants self [] (periplasm self) =
          Inr (w1' @ [Space (id' (periplasm self)) (space_parameters (periplasm self))
                        (routing_table (periplasm self))],
               write_coupled_model (the_coder self) d)"
    by (auto simp add: rtp idp cdr example_coder_def)
  from self f d(3) d(1) d(2) show ?thesis by blast
qed

text \<open>
  The claim as stated fails on a compartment with an external reaction set under its own
  id. With the external sets \<open>{p: [x]}\<close> every key of the routing table carries the
  compartment's own id, but \<open>(p, x)\<close> has no generated reaction set: the lookup raises
  \<^verbatim>\<open>KeyError\<close> and no coupling is built. With \<open>{p: [x], q: [y]}\<close> the table has the
  foreign key \<open>(q, y)\<close>, and the method again ends with \<^verbatim>\<open>KeyError\<close>, not with the
  assertion.
\<close>

theorem organelle_assertion_counterexample:
  "ebind own_ext_structure (\<lambda>c. Inr (id' c, routing_table c)) =
     Inr (''p'', [((''p'', ''bulk''), 0), ((''p'', ''x''), 1)]) \<and>
   organelle_run own_ext_structure = Inl KeyError \<and>
   ebind mixed_ext_structure (\<lambda>c. Inr (id' c, routing_table c)) =
     Inr (''p'', [((''p'', ''bulk''), 0), ((''p'', ''x''), 1), ((''q'', ''y''), 2)]) \<and>
   organelle_run mixed_ext_structure = Inl KeyError"
  by (simp add: own_ext_structure_def mixed_ext_structure_def organelle_run_def
        example_defs run_defs generate_organelle_compartment_def organelle_descriptor_def
        space_atomic_model_def build_enzyme_sets.simps)

end
